theory Spec2Isabelle
  imports Main "HOL-Library.AList"
begin

section \<open>Slugs (lib/video.go)\<close>

text \<open>
  A Go string is read by \<^verbatim>\<open>strings.ToLower\<close> and by the regular expressions rune by
  rune, so a Go string is modelled as the list of its Unicode code points.
\<close>

type_synonym rune = nat
type_synonym gostring = "rune list"

text \<open>
  \<^verbatim>\<open>strings.ToLower\<close>: the ASCII letters \<^verbatim>\<open>A-Z\<close> move to \<^verbatim>\<open>a-z\<close>, the other ASCII runes
  stay, and a rune beyond ASCII is mapped by the case table of Go's \<^verbatim>\<open>unicode\<close> package,
  which is taken as the parameter \<open>tbl\<close> (it may well yield an ASCII letter, as it does for
  the Kelvin sign).
\<close>

definition toLowerRune :: "(rune \<Rightarrow> rune) \<Rightarrow> rune \<Rightarrow> rune" where
  "toLowerRune tbl r =
     (if 65 \<le> r \<and> r \<le> 90 then r + 32 else if r < 128 then r else tbl r)"

definition ToLower :: "(rune \<Rightarrow> rune) \<Rightarrow> gostring \<Rightarrow> gostring" where
  "ToLower tbl s = map (toLowerRune tbl) s"

text \<open>\<^verbatim>\<open>invalidSlugPattern = [^a-z0-9 _-]\<close>: the runes the pattern does \<^emph>\<open>not\<close> match.\<close>

definition validSlugRune :: "rune \<Rightarrow> bool" where
  "validSlugRune r \<longleftrightarrow>
     (97 \<le> r \<and> r \<le> 122) \<or> (48 \<le> r \<and> r \<le> 57) \<or> r = 32 \<or> r = 95 \<or> r = 45"

text \<open>\<^verbatim>\<open>invalidSlugPattern.ReplaceAllString(text, "")\<close> drops every matching rune.\<close>

definition removeInvalid :: "gostring \<Rightarrow> gostring" where
  "removeInvalid s = filter validSlugRune s"

text \<open>\<^verbatim>\<open>whiteSpacePattern = \s+\<close>, where \<^verbatim>\<open>\s\<close> is \<^verbatim>\<open>[\t\n\f\r ]\<close> in Go's syntax.\<close>

definition isSpace :: "rune \<Rightarrow> bool" where
  "isSpace r \<longleftrightarrow> r = 9 \<or> r = 10 \<or> r = 12 \<or> r = 13 \<or> r = 32"

text \<open>
  \<^verbatim>\<open>whiteSpacePattern.ReplaceAllString(text, "-")\<close>: every maximal run of white space
  becomes one separator.
\<close>

function replaceWhiteSpace :: "gostring \<Rightarrow> gostring" where
  "replaceWhiteSpace [] = []"
| "replaceWhiteSpace (c # cs) =
     (if isSpace c then 45 # replaceWhiteSpace (dropWhile isSpace cs)
      else c # replaceWhiteSpace cs)"
  by pat_completeness auto
termination
  by (relation "measure length") (auto simp: length_dropWhile_le less_Suc_eq_le)

text \<open>\<^verbatim>\<open>strings.Trim(text, "-")\<close>: the separators at both ends go.\<close>

definition Trim :: "gostring \<Rightarrow> gostring" where
  "Trim s = rev (dropWhile (\<lambda>r. r = 45) (rev (dropWhile (\<lambda>r. r = 45) s)))"

definition slug :: "(rune \<Rightarrow> rune) \<Rightarrow> gostring \<Rightarrow> gostring" where
  "slug tbl txt = Trim (replaceWhiteSpace (removeInvalid (ToLower tbl txt)))"

text \<open>What the result of \<open>slug\<close> may hold: lowercase letters, digits, underscore, hyphen.\<close>

definition slugRune :: "rune \<Rightarrow> bool" where
  "slugRune r \<longleftrightarrow> (97 \<le> r \<and> r \<le> 122) \<or> (48 \<le> r \<and> r \<le> 57) \<or> r = 95 \<or> r = 45"

definition leadingHyphen :: "gostring \<Rightarrow> bool" where
  "leadingHyphen s = (case s of [] \<Rightarrow> False | r # _ \<Rightarrow> r = 45)"

definition trailingHyphen :: "gostring \<Rightarrow> bool" where
  "trailingHyphen s = leadingHyphen (rev s)"

section \<open>Paths\<close>

text \<open>
  The library works on absolute, cleaned, slash-separated paths. Such a path is modelled as
  the list of its components below the root: \<^verbatim>\<open>/movies/Foo (2020)/foo.mkv\<close> is
  \<open>[''movies'', ''Foo (2020)'', ''foo.mkv'']\<close>. The empty list stands for Go's empty string
  in the \<^verbatim>\<open>Path\<close> field of an entity (no file can have the root as its path) and for the
  root where a directory is meant.
\<close>

type_synonym path = "string list"

text \<open>
  \<^verbatim>\<open>path.Dir\<close>: all but the last element; \<^verbatim>\<open>path.Dir("")\<close> is \<^verbatim>\<open>"."\<close>, kept as the
  one component \<open>''.''\<close>.
\<close>

definition pathDir :: "path \<Rightarrow> path" where
  "pathDir p = (if p = [] then [''.''] else butlast p)"

text \<open>\<^verbatim>\<open>path.Base\<close>: the last element; \<^verbatim>\<open>path.Base("")\<close> is \<^verbatim>\<open>"."\<close>.\<close>

definition pathBase :: "path \<Rightarrow> string" where
  "pathBase p = (if p = [] then ''.'' else last p)"

text \<open>
  \<^verbatim>\<open>path.Ext\<close>: the suffix of the last element that starts at its final dot, empty when
  that element has no dot.
\<close>

definition nameExt :: "string \<Rightarrow> string" where
  "nameExt n =
     (if CHR ''.'' \<in> set n then CHR ''.'' # rev (takeWhile (\<lambda>c. c \<noteq> CHR ''.'') (rev n))
      else [])"

definition pathExt :: "path \<Rightarrow> string" where
  "pathExt p = (if p = [] then [] else nameExt (last p))"

text \<open>
  \<^verbatim>\<open>filepath.Join(dir, elem)\<close> for a clean absolute \<open>dir\<close>: the elements of \<open>elem\<close> between
  slashes are appended one by one; \<^verbatim>\<open>filepath.Clean\<close> drops the empty ones and \<^verbatim>\<open>"."\<close>,
  and \<^verbatim>\<open>".."\<close> steps back to the parent (the root is its own parent).
\<close>

fun splitSlash :: "string \<Rightarrow> string \<Rightarrow> string list" where
  "splitSlash acc [] = [rev acc]"
| "splitSlash acc (c # cs) =
     (if c = CHR ''/'' then rev acc # splitSlash [] cs else splitSlash (c # acc) cs)"

definition cleanStep :: "path \<Rightarrow> string \<Rightarrow> path" where
  "cleanStep p c =
     (if c = [] \<or> c = ''.'' then p else if c = ''..'' then butlast p else p @ [c])"

definition Join :: "path \<Rightarrow> string \<Rightarrow> path" where
  "Join dir elem = foldl cleanStep dir (splitSlash [] elem)"

text \<open>\<^verbatim>\<open>fmt.Sprintf("%d", n)\<close>: the decimal digits, with a minus sign below zero.\<close>

definition digit :: "nat \<Rightarrow> char" where
  "digit d = ''0123456789'' ! d"

function decimal :: "nat \<Rightarrow> string" where
  "decimal n = (if n < 10 then [digit n] else decimal (n div 10) @ [digit (n mod 10)])"
  by pat_completeness auto
termination
  by (relation "measure id") auto

declare decimal.simps [simp del]

definition itoa :: "int \<Rightarrow> string" where
  "itoa i = (if i < 0 then CHR ''-'' # decimal (nat (- i)) else decimal (nat i))"

text \<open>
  Modelled from the spec: \<^verbatim>\<open>File.PathWithoutExt\<close> and \<^verbatim>\<open>File.NfoPath\<close> of package
  \<^verbatim>\<open>polochon\<close>, which are not among the sources. The sidecar of a file is
  \<^verbatim>\<open><file-without-ext>.nfo\<close> (spec, section 6).
\<close>

definition appendToName :: "path \<Rightarrow> string \<Rightarrow> path" where
  "appendToName p s = (if p = [] then [s] else butlast p @ [last p @ s])"

definition PathWithoutExt :: "path \<Rightarrow> path" where
  "PathWithoutExt p =
     (if p = [] then [] else butlast p @ [take (length (last p) - length (pathExt p)) (last p)])"

definition NfoPath :: "path \<Rightarrow> path" where
  "NfoPath p = appendToName (PathWithoutExt p) ''.nfo''"

section \<open>Entities\<close>

text \<open>
  The fields of \<^verbatim>\<open>polochon.Movie\<close>, \<^verbatim>\<open>polochon.Show\<close> and \<^verbatim>\<open>polochon.ShowEpisode\<close> that the
  library reads. \<^verbatim>\<open>Path\<close> comes from the embedded \<^verbatim>\<open>File\<close>. The fields of a show and the
  path and show of an episode carry a prefix, since the three records share field names in
  Go.
\<close>

record movie =
  ImdbID :: string
  Title :: string
  Year :: int
  Path :: path
  Fanart :: string
  Thumb :: string

record tvshow =
  show_ImdbID :: string
  show_Title :: string
  show_Fanart :: string
  show_Banner :: string
  show_Poster :: string

record episode =
  ShowImdbID :: string
  ShowTitle :: string
  Season :: int
  Episode :: int
  ep_Path :: path
  ep_Show :: "tvshow option"

section \<open>Errors\<close>

datatype errno = ENOENT | EEXIST | EINVAL | EISDIR | ENOTDIR | ENOTEMPTY | EACCES | EBUSY

text \<open>
  The five errors of package \<^verbatim>\<open>library\<close>, the index's not-found error, the sidecar codec's
  parse error, an error of the operating system or the network, and a fatal error of the
  detail fetch.
\<close>

datatype error =
    ErrInvalidIndexVideoType
  | ErrMissingMovieFilePath
  | ErrMissingMovieImageURL
  | ErrMissingShowImageURL
  | ErrMissingShowEpisodeFilePath
  | ErrNotFound
  | ErrParse
  | ErrOS errno
  | ErrFatalDetails

text \<open>The errors that package \<^verbatim>\<open>library\<close> declares itself (lines 18 to 24).\<close>

definition libraryError :: "error \<Rightarrow> bool" where
  "libraryError e \<longleftrightarrow>
     e = ErrInvalidIndexVideoType \<or> e = ErrMissingMovieFilePath \<or>
     e = ErrMissingMovieImageURL \<or> e = ErrMissingShowImageURL \<or>
     e = ErrMissingShowEpisodeFilePath"

section \<open>The file system\<close>

text \<open>
  What a file holds. A sidecar holds the document of a movie, a show or an episode; the
  document does not carry the path of the media file (nor the episode's pointer to its
  show), which the reader sets from the file it was asked about.
\<close>

datatype content =
    Media
  | Picture
  | MovieNFO movie
  | ShowNFO tvshow
  | EpisodeNFO episode
  | Malformed

text \<open>
  The directory tree. The entries of a directory are listed in the order in which
  \<^verbatim>\<open>readDirNames\<close> returns them. A symbolic link is a leaf: the model never follows one.
\<close>

datatype node = File content | Link path | Dir "(string \<times> node) list"

fun IsDir :: "node \<Rightarrow> bool" where
  "IsDir (Dir es) = True"
| "IsDir n = False"

fun lookup :: "node \<Rightarrow> path \<Rightarrow> node option" where
  "lookup n [] = Some n"
| "lookup (Dir es) (c # cs) = (case map_of es c of None \<Rightarrow> None | Some n \<Rightarrow> lookup n cs)"
| "lookup n (c # cs) = None"

text \<open>Removing the entry at a path, with all that is below it.\<close>

fun remove :: "path \<Rightarrow> node \<Rightarrow> node" where
  "remove [] n = n"
| "remove [c] (Dir es) = Dir (AList.delete c es)"
| "remove (c # cs) (Dir es) = Dir (AList.map_entry c (remove cs) es)"
| "remove (c # cs) n = n"

text \<open>
  Putting a node at a path, in place of what is there: the parent must be a directory.
\<close>

fun put :: "path \<Rightarrow> node \<Rightarrow> node \<Rightarrow> node option" where
  "put [] new n = None"
| "put [c] new (Dir es) = Some (Dir (AList.update c new es))"
| "put (c # cs) new (Dir es) =
     (case map_of es c of
        None \<Rightarrow> None
      | Some n \<Rightarrow>
          (case put cs new n of
             None \<Rightarrow> None
           | Some n' \<Rightarrow> Some (Dir (AList.update c n' es))))"
| "put (c # cs) new n = None"

text \<open>
  The calls the library makes to the operating system and to the network. The world lists
  the calls that fail for a reason outside the tree (permissions, a device error, the
  network): \<open>refused\<close>.
\<close>

datatype syscall =
    SysRemoveAll path
  | SysMkdir path
  | SysRename path path
  | SysSymlink path path
  | SysCreate path
  | SysOpen path
  | SysLstat path
  | SysReadDir path
  | SysDownload string

datatype level = Debug | Info | Warn | Error

text \<open>
  The state the library works on: the tree, the refused calls, the movie index, the show
  index, and the lines handed to the logger.

  Modelled from the spec: the two indexes of package \<^verbatim>\<open>index\<close> (\<^verbatim>\<open>lib/media_index\<close>), which
  are not among the sources. Section 4.1 makes the movie index a mapping from a movie
  identifier to the path of its file, section 4.2 makes the show index a three-level
  mapping (show, season, episode) to the path of the episode's file. The cached summary
  fields are left out: nothing below reads them.
\<close>

record world =
  root :: node
  refused :: "syscall list"
  movieIndex :: "string \<rightharpoonup> path"
  showIndex :: "string \<rightharpoonup> (int \<rightharpoonup> (int \<rightharpoonup> path))"
  logs :: "(level \<times> string) list"

section \<open>Calls that may fail\<close>

text \<open>
  A Go function that returns \<^verbatim>\<open>(x, error)\<close> and changes the state as it goes is a function
  from the world to the result and the world it leaves, also when it fails.
\<close>

type_synonym 'a io = "world \<Rightarrow> (error + 'a) \<times> world"

definition ret :: "'a \<Rightarrow> 'a io" where
  "ret x w = (Inr x, w)"

definition fail :: "error \<Rightarrow> 'a io" where
  "fail e w = (Inl e, w)"

text \<open>\<^verbatim>\<open>x, err := m(); if err != nil { return err }; f(x)\<close>\<close>

definition andThen :: "'a io \<Rightarrow> ('a \<Rightarrow> 'b io) \<Rightarrow> 'b io" where
  "andThen m f w = (case m w of (Inl e, w') \<Rightarrow> (Inl e, w') | (Inr x, w') \<Rightarrow> f x w')"

definition logf :: "level \<Rightarrow> string \<Rightarrow> unit io" where
  "logf lvl msg w = (Inr (), w\<lparr>logs := logs w @ [(lvl, msg)]\<rparr>)"

definition setRoot :: "node \<Rightarrow> unit io" where
  "setRoot t w = (Inr (), w\<lparr>root := t\<rparr>)"

text \<open>
  \<^verbatim>\<open>os.RemoveAll\<close> of an absolute path: the root cannot be removed (\<^verbatim>\<open>EBUSY\<close>), a path
  that ends in a dot is \<^verbatim>\<open>EINVAL\<close>, and it is no error when nothing is at the path. A
  failing call is modelled as leaving the tree as it is (Go may have removed part of it by
  then; nothing below relies on the tree after a failure). \<open>removable\<close> tells when the call
  succeeds.
\<close>

definition removable :: "world \<Rightarrow> path \<Rightarrow> bool" where
  "removable w p \<longleftrightarrow> p \<noteq> [] \<and> last p \<noteq> ''.'' \<and> SysRemoveAll p \<notin> set (refused w)"

definition RemoveAll :: "path \<Rightarrow> unit io" where
  "RemoveAll p w =
     (if p = [] then fail (ErrOS EBUSY) w
      else if last p = ''.'' then fail (ErrOS EINVAL) w
      else if SysRemoveAll p \<in> set (refused w) then fail (ErrOS EACCES) w
      else setRoot (remove p (root w)) w)"

text \<open>\<^verbatim>\<open>os.Mkdir\<close>: the path must be free and its parent a directory.\<close>

definition Mkdir :: "path \<Rightarrow> unit io" where
  "Mkdir p w =
     (if SysMkdir p \<in> set (refused w) then fail (ErrOS EACCES) w
      else if lookup (root w) p \<noteq> None then fail (ErrOS EEXIST) w
      else (case put p (Dir []) (root w) of
              None \<Rightarrow> fail (ErrOS ENOENT) w
            | Some t \<Rightarrow> setRoot t w))"

text \<open>
  \<^verbatim>\<open>os.Rename\<close>, as \<^verbatim>\<open>rename(2)\<close>: the source must exist; a file replaces a file or a link,
  a directory replaces an empty directory; the destination's parent must be a directory.
\<close>

definition Rename :: "path \<Rightarrow> path \<Rightarrow> unit io" where
  "Rename old new w =
     (if SysRename old new \<in> set (refused w) then fail (ErrOS EACCES) w
      else (case lookup (root w) old of
        None \<Rightarrow> fail (ErrOS ENOENT) w
      | Some n \<Rightarrow>
          if old = [] \<or> (IsDir n \<and> take (length old) new = old \<and> new \<noteq> old)
          then fail (ErrOS EINVAL) w
          else if new = old then ret () w
          else (case lookup (root w) new of
                  Some (Dir es) \<Rightarrow>
                    if \<not> IsDir n then fail (ErrOS EISDIR) w
                    else if es \<noteq> [] then fail (ErrOS ENOTEMPTY) w
                    else (case put new n (remove old (root w)) of
                            None \<Rightarrow> fail (ErrOS ENOENT) w
                          | Some t \<Rightarrow> setRoot t w)
                | Some m \<Rightarrow>
                    if IsDir n then fail (ErrOS ENOTDIR) w
                    else (case put new n (remove old (root w)) of
                            None \<Rightarrow> fail (ErrOS ENOENT) w
                          | Some t \<Rightarrow> setRoot t w)
                | None \<Rightarrow>
                    (case put new n (remove old (root w)) of
                       None \<Rightarrow> fail (ErrOS ENOENT) w
                     | Some t \<Rightarrow> setRoot t w))))"

text \<open>\<^verbatim>\<open>os.Symlink(target, link)\<close>: the link's path must be free.\<close>

definition Symlink :: "path \<Rightarrow> path \<Rightarrow> unit io" where
  "Symlink target link w =
     (if SysSymlink target link \<in> set (refused w) then fail (ErrOS EACCES) w
      else if lookup (root w) link \<noteq> None then fail (ErrOS EEXIST) w
      else (case put link (Link target) (root w) of
              None \<Rightarrow> fail (ErrOS ENOENT) w
            | Some t \<Rightarrow> setRoot t w))"

text \<open>Creating or truncating a file and writing it; a directory is in the way.\<close>

definition writeFile :: "path \<Rightarrow> content \<Rightarrow> unit io" where
  "writeFile p c w =
     (if SysCreate p \<in> set (refused w) then fail (ErrOS EACCES) w
      else (case lookup (root w) p of
              Some (Dir es) \<Rightarrow> fail (ErrOS EISDIR) w
            | _ \<Rightarrow>
              (case put p (File c) (root w) of
                 None \<Rightarrow> fail (ErrOS ENOENT) w
               | Some t \<Rightarrow> setRoot t w)))"

text \<open>Opening a file and reading it.\<close>

definition readFile :: "path \<Rightarrow> content io" where
  "readFile p w =
     (if SysOpen p \<in> set (refused w) then fail (ErrOS EACCES) w
      else (case lookup (root w) p of
              Some (File c) \<Rightarrow> ret c w
            | Some (Dir es) \<Rightarrow> fail (ErrOS EISDIR) w
            | _ \<Rightarrow> fail (ErrOS ENOENT) w))"

text \<open>
  Modelled from the spec: the helpers \<^verbatim>\<open>exists\<close>, \<^verbatim>\<open>download\<close>, \<^verbatim>\<open>writeNFOFile\<close> and
  \<^verbatim>\<open>readNFOFile\<close> of package \<^verbatim>\<open>library\<close>, which are not among the sources. \<^verbatim>\<open>exists\<close> tells
  whether something is at the path. \<^verbatim>\<open>download(url, destinationPath)\<close> is a blocking
  retrieval that stores a picture at the destination or fails (section 6). The sidecar
  codec writes the document of an entity to a file and reads it back; reading fails with a
  parse error on content that is no document of the kind asked for (section 6).
\<close>

definition exists :: "path \<Rightarrow> world \<Rightarrow> bool" where
  "exists p w = (lookup (root w) p \<noteq> None)"

text \<open>\<^verbatim>\<open>if !exists(dir) { os.Mkdir(dir, os.ModePerm) }\<close>: a directory is created if necessary.\<close>

definition mkdirIfAbsent :: "path \<Rightarrow> unit io" where
  "mkdirIfAbsent dir w = (if \<not> exists dir w then Mkdir dir w else ret () w)"

definition download :: "string \<Rightarrow> path \<Rightarrow> unit io" where
  "download url savePath w =
     (if SysDownload url \<in> set (refused w) then fail (ErrOS EACCES) w
      else writeFile savePath Picture w)"

definition writeMovieNFO :: "path \<Rightarrow> movie \<Rightarrow> unit io" where
  "writeMovieNFO p m = writeFile p (MovieNFO (m\<lparr>Path := []\<rparr>))"

definition writeShowNFO :: "path \<Rightarrow> tvshow \<Rightarrow> unit io" where
  "writeShowNFO p s = writeFile p (ShowNFO s)"

definition writeEpisodeNFO :: "path \<Rightarrow> episode \<Rightarrow> unit io" where
  "writeEpisodeNFO p e = writeFile p (EpisodeNFO (e\<lparr>ep_Path := [], ep_Show := None\<rparr>))"

definition readMovieNFO :: "path \<Rightarrow> movie io" where
  "readMovieNFO p =
     andThen (readFile p) (\<lambda>c. case c of MovieNFO m \<Rightarrow> ret m | _ \<Rightarrow> fail ErrParse)"

definition readShowNFO :: "path \<Rightarrow> tvshow io" where
  "readShowNFO p =
     andThen (readFile p) (\<lambda>c. case c of ShowNFO s \<Rightarrow> ret s | _ \<Rightarrow> fail ErrParse)"

definition readEpisodeNFO :: "path \<Rightarrow> episode io" where
  "readEpisodeNFO p =
     andThen (readFile p) (\<lambda>c. case c of EpisodeNFO e \<Rightarrow> ret e | _ \<Rightarrow> fail ErrParse)"

section \<open>The indexes\<close>

text \<open>
  Modelled from the spec: the operations of \<^verbatim>\<open>index.MovieIndex\<close>, which are not among the
  sources (section 4.1): \<^verbatim>\<open>Has\<close>; \<^verbatim>\<open>Add\<close>, which overwrites; \<^verbatim>\<open>Remove\<close> and \<^verbatim>\<open>MoviePath\<close>,
  which fail with NotFound on an absent identifier; \<^verbatim>\<open>IDs\<close>; \<^verbatim>\<open>Clear\<close>.
\<close>

definition MovieIndex_Has :: "string \<Rightarrow> bool io" where
  "MovieIndex_Has imdbID w = ret (movieIndex w imdbID \<noteq> None) w"

definition MovieIndex_Add :: "movie \<Rightarrow> unit io" where
  "MovieIndex_Add m w = (Inr (), w\<lparr>movieIndex := (movieIndex w)(ImdbID m \<mapsto> Path m)\<rparr>)"

definition MovieIndex_Remove :: "movie \<Rightarrow> unit io" where
  "MovieIndex_Remove m w =
     (if movieIndex w (ImdbID m) = None then fail ErrNotFound w
      else (Inr (), w\<lparr>movieIndex := (movieIndex w)(ImdbID m := None)\<rparr>))"

definition MoviePath :: "string \<Rightarrow> path io" where
  "MoviePath imdbID w =
     (case movieIndex w imdbID of None \<Rightarrow> fail ErrNotFound w | Some p \<Rightarrow> ret p w)"

definition MovieIndex_IDs :: "world \<Rightarrow> string set" where
  "MovieIndex_IDs w = dom (movieIndex w)"

definition MovieIndex_Clear :: "unit io" where
  "MovieIndex_Clear w = (Inr (), w\<lparr>movieIndex := Map.empty\<rparr>)"

text \<open>
  Modelled from the spec: the operations of \<^verbatim>\<open>index.ShowIndex\<close>, which are not among the
  sources (section 4.2). \<^verbatim>\<open>Add\<close> inserts the episode and materializes its season and its
  show; \<^verbatim>\<open>RemoveEpisode\<close> and \<^verbatim>\<open>EpisodePath\<close> fail with NotFound on an absent episode.
  \<^verbatim>\<open>RemoveEpisode\<close> takes the episode's entry only: the emptiness checks and the removal of
  the season and of the show are operations of their own, which the caller runs. The spec
  leaves open what they answer for an identifier that is not indexed; here they fail with
  NotFound, and \<^verbatim>\<open>RemoveSeason\<close> and \<^verbatim>\<open>RemoveShow\<close> remove the entry they are given without
  checking that it is empty.
\<close>

definition HasEpisode :: "string \<Rightarrow> int \<Rightarrow> int \<Rightarrow> bool io" where
  "HasEpisode imdbID season ep w =
     ret (case showIndex w imdbID of
            None \<Rightarrow> False
          | Some seasons \<Rightarrow>
              (case seasons season of None \<Rightarrow> False | Some eps \<Rightarrow> eps ep \<noteq> None)) w"

definition ShowIndex_Add :: "episode \<Rightarrow> unit io" where
  "ShowIndex_Add e w =
     (let seasons = (case showIndex w (ShowImdbID e) of None \<Rightarrow> Map.empty | Some s \<Rightarrow> s);
          eps = (case seasons (Season e) of None \<Rightarrow> Map.empty | Some es \<Rightarrow> es)
      in (Inr (), w\<lparr>showIndex := (showIndex w)
            (ShowImdbID e \<mapsto> seasons(Season e \<mapsto> eps(Episode e \<mapsto> ep_Path e)))\<rparr>))"

definition EpisodePath :: "string \<Rightarrow> int \<Rightarrow> int \<Rightarrow> path io" where
  "EpisodePath imdbID season ep w =
     (case showIndex w imdbID of
        None \<Rightarrow> fail ErrNotFound w
      | Some seasons \<Rightarrow>
          (case seasons season of
             None \<Rightarrow> fail ErrNotFound w
           | Some eps \<Rightarrow>
               (case eps ep of None \<Rightarrow> fail ErrNotFound w | Some p \<Rightarrow> ret p w)))"

definition RemoveEpisode :: "episode \<Rightarrow> unit io" where
  "RemoveEpisode e w =
     (case showIndex w (ShowImdbID e) of
        None \<Rightarrow> fail ErrNotFound w
      | Some seasons \<Rightarrow>
          (case seasons (Season e) of
             None \<Rightarrow> fail ErrNotFound w
           | Some eps \<Rightarrow>
               if eps (Episode e) = None then fail ErrNotFound w
               else (Inr (), w\<lparr>showIndex := (showIndex w)
                      (ShowImdbID e \<mapsto> seasons(Season e \<mapsto> eps(Episode e := None)))\<rparr>)))"

definition IsSeasonEmpty :: "string \<Rightarrow> int \<Rightarrow> bool io" where
  "IsSeasonEmpty imdbID season w =
     (case showIndex w imdbID of
        None \<Rightarrow> fail ErrNotFound w
      | Some seasons \<Rightarrow>
          (case seasons season of
             None \<Rightarrow> fail ErrNotFound w
           | Some eps \<Rightarrow> ret (dom eps = {}) w))"

definition IsShowEmpty :: "string \<Rightarrow> bool io" where
  "IsShowEmpty imdbID w =
     (case showIndex w imdbID of
        None \<Rightarrow> fail ErrNotFound w
      | Some seasons \<Rightarrow> ret (dom seasons = {}) w)"

definition RemoveSeason :: "tvshow \<Rightarrow> int \<Rightarrow> unit io" where
  "RemoveSeason s season w =
     (case showIndex w (show_ImdbID s) of
        None \<Rightarrow> fail ErrNotFound w
      | Some seasons \<Rightarrow>
          if seasons season = None then fail ErrNotFound w
          else (Inr (), w\<lparr>showIndex := (showIndex w)
                  (show_ImdbID s \<mapsto> seasons(season := None))\<rparr>))"

definition RemoveShow :: "tvshow \<Rightarrow> unit io" where
  "RemoveShow s w =
     (if showIndex w (show_ImdbID s) = None then fail ErrNotFound w
      else (Inr (), w\<lparr>showIndex := (showIndex w)(show_ImdbID s := None)\<rparr>))"

definition ShowIndex_Clear :: "unit io" where
  "ShowIndex_Clear w = (Inr (), w\<lparr>showIndex := Map.empty\<rparr>)"

section \<open>The library (package library)\<close>

text \<open>
  \<^verbatim>\<open>Show.GetDetails\<close> asks a metadata provider outside the library. It is a parameter of the
  model: it fills in a show and tells whether it succeeded, failed, or failed fatally
  (\<^verbatim>\<open>errors.IsFatal\<close>).
\<close>

datatype fetch = FetchOk | FetchFailed | FetchFatal

record library =
  MovieDir :: path
  ShowDir :: path
  VideoExtentions :: "string list"
  GetDetails :: "tvshow \<Rightarrow> fetch \<times> tvshow"

definition HasMovie :: "library \<Rightarrow> string \<Rightarrow> bool io" where
  "HasMovie l imdbID = MovieIndex_Has imdbID"

definition HasShowEpisode :: "library \<Rightarrow> string \<Rightarrow> int \<Rightarrow> int \<Rightarrow> bool io" where
  "HasShowEpisode l imdbID season ep = HasEpisode imdbID season ep"

definition getMovieDir :: "library \<Rightarrow> movie \<Rightarrow> path" where
  "getMovieDir l m =
     (if Year m \<noteq> 0 then Join (MovieDir l) (Title m @ '' ('' @ itoa (Year m) @ '')'')
      else Join (MovieDir l) (Title m))"

text \<open>
  Modelled from the spec: \<^verbatim>\<open>polochon.NewMovieFromFile\<close>, \<^verbatim>\<open>NewShowEpisodeFromFile\<close> and
  \<^verbatim>\<open>NewShowFromEpisode\<close> are not among the sources. An entity is reconstructed from disk by
  reading the sidecar of its file (section 3); a minimal show is built from the episode's
  show identifier and title (section 4.3).
\<close>

definition newMovieFromPath :: "library \<Rightarrow> path \<Rightarrow> movie io" where
  "newMovieFromPath l p = andThen (readMovieNFO (NfoPath p)) (\<lambda>m. ret (m\<lparr>Path := p\<rparr>))"

definition newEpisodeFromPath :: "library \<Rightarrow> path \<Rightarrow> episode io" where
  "newEpisodeFromPath l p =
     andThen (readEpisodeNFO (NfoPath p)) (\<lambda>e. ret (e\<lparr>ep_Path := p, ep_Show := None\<rparr>))"

definition newShowFromPath :: "library \<Rightarrow> path \<Rightarrow> tvshow io" where
  "newShowFromPath l p = readShowNFO p"

definition NewShowFromEpisode :: "episode \<Rightarrow> tvshow" where
  "NewShowFromEpisode e =
     \<lparr>show_ImdbID = ShowImdbID e, show_Title = ShowTitle e,
      show_Fanart = [], show_Banner = [], show_Poster = []\<rparr>"

definition GetMovie :: "library \<Rightarrow> string \<Rightarrow> movie io" where
  "GetMovie l imdbID = andThen (MoviePath imdbID) (\<lambda>p. newMovieFromPath l p)"

definition GetEpisode :: "library \<Rightarrow> string \<Rightarrow> int \<Rightarrow> int \<Rightarrow> episode io" where
  "GetEpisode l imdbID season ep =
     andThen (EpisodePath imdbID season ep) (\<lambda>p. newEpisodeFromPath l p)"

subsection \<open>Deleting\<close>

definition DeleteMovie :: "library \<Rightarrow> movie \<Rightarrow> unit io" where
  "DeleteMovie l m =
     (let d = pathDir (Path m) in
      andThen (logf Info ''Removing Movie'') (\<lambda>_.
      andThen (RemoveAll d) (\<lambda>_.
      MovieIndex_Remove m)))"

definition getShowDir :: "library \<Rightarrow> episode \<Rightarrow> path" where
  "getShowDir l e = Join (ShowDir l) (ShowTitle e)"

definition getSeasonDir :: "library \<Rightarrow> episode \<Rightarrow> path" where
  "getSeasonDir l e = Join (Join (ShowDir l) (ShowTitle e)) (''Season '' @ itoa (Season e))"

definition showNFOPath :: "library \<Rightarrow> path \<Rightarrow> path" where
  "showNFOPath l showDir = Join showDir ''tvshow.nfo''"

text \<open>
  The loop of \<^verbatim>\<open>DeleteShowEpisode\<close> over the extensions \<^verbatim>\<open>nfo\<close> and \<^verbatim>\<open>srt\<close>, and the file
  it removes for an extension: \<^verbatim>\<open>fmt.Sprintf("%s.%s", pathWithoutExt, ext)\<close>.
\<close>

definition fileToDelete :: "path \<Rightarrow> string \<Rightarrow> path" where
  "fileToDelete pathWithoutExt ext = appendToName pathWithoutExt (''.'' @ ext)"

fun removeSidecars :: "path \<Rightarrow> string list \<Rightarrow> unit io" where
  "removeSidecars pathWithoutExt [] = ret ()"
| "removeSidecars pathWithoutExt (ext # exts) =
     andThen (logf Debug ''Removing'') (\<lambda>_.
     andThen (RemoveAll (fileToDelete pathWithoutExt ext)) (\<lambda>_.
     removeSidecars pathWithoutExt exts))"

text \<open>\<^verbatim>\<open>&polochon.Show{ImdbID: id}\<close>\<close>

definition showOfID :: "string \<Rightarrow> tvshow" where
  "showOfID imdbID =
     \<lparr>show_ImdbID = imdbID, show_Title = [], show_Fanart = [], show_Banner = [],
      show_Poster = []\<rparr>"

text \<open>
  The two cascade checks of \<^verbatim>\<open>DeleteShowEpisode\<close> (lines 395 to 411 and 413 to 429), in
  the order of the source.
\<close>

definition cascadeSeason :: "library \<Rightarrow> episode \<Rightarrow> unit io" where
  "cascadeSeason l se =
     andThen (IsSeasonEmpty (ShowImdbID se) (Season se)) (\<lambda>ok.
     if ok then
       andThen (RemoveAll (getSeasonDir l se)) (\<lambda>_.
       RemoveSeason (showOfID (ShowImdbID se)) (Season se))
     else ret ())"

definition cascadeShow :: "library \<Rightarrow> episode \<Rightarrow> unit io" where
  "cascadeShow l se =
     andThen (IsShowEmpty (ShowImdbID se)) (\<lambda>ok.
     if ok then
       andThen (RemoveAll (getShowDir l se)) (\<lambda>_.
       RemoveShow (showOfID (ShowImdbID se)))
     else ret ())"

text \<open>
  \<^verbatim>\<open>DeleteShowEpisode\<close> (lines 372 to 432). \<^verbatim>\<open>os.RemoveAll("")\<close> returns nil: an episode
  without a path has no file to remove.
\<close>

definition DeleteShowEpisode :: "library \<Rightarrow> episode \<Rightarrow> unit io" where
  "DeleteShowEpisode l se =
     andThen (logf Info ''Removing ShowEpisode'') (\<lambda>_.
     andThen (if ep_Path se = [] then ret () else RemoveAll (ep_Path se)) (\<lambda>_.
     andThen (removeSidecars (PathWithoutExt (ep_Path se)) [''nfo'', ''srt'']) (\<lambda>_.
     andThen (RemoveEpisode se) (\<lambda>_.
     andThen (cascadeSeason l se) (\<lambda>_.
     cascadeShow l se)))))"

subsection \<open>Adding a movie\<close>

text \<open>
  Modelled from the spec: \<^verbatim>\<open>Movie.MovieFanartPath\<close> and \<^verbatim>\<open>Movie.MovieThumbPath\<close> are not
  among the sources; the artwork is \<^verbatim>\<open>fanart.jpg\<close> and \<^verbatim>\<open>poster.jpg\<close> beside the file
  (section 6).
\<close>

definition MovieFanartPath :: "movie \<Rightarrow> path" where
  "MovieFanartPath m = Join (pathDir (Path m)) ''fanart.jpg''"

definition MovieThumbPath :: "movie \<Rightarrow> path" where
  "MovieThumbPath m = Join (pathDir (Path m)) ''poster.jpg''"

text \<open>Lines 106 to 122 of \<^verbatim>\<open>AddMovie\<close>: a movie already in the index is deleted first.\<close>

definition supersedeMovie :: "library \<Rightarrow> movie \<Rightarrow> unit io" where
  "supersedeMovie l movie =
     andThen (HasMovie l (ImdbID movie)) (\<lambda>ok.
     if ok then
       andThen (GetMovie l (ImdbID movie)) (\<lambda>oldMovie.
       DeleteMovie l oldMovie)
     else ret ())"

text \<open>Lines 132 to 197 of \<^verbatim>\<open>AddMovie\<close>: the move, the link, the sidecar, the index, the images.\<close>

definition storeMovie :: "library \<Rightarrow> movie \<Rightarrow> path \<Rightarrow> unit io" where
  "storeMovie l movie storePath =
     andThen (\<lambda>w. if exists storePath w
                  then andThen (logf Debug ''Movie folder exists, remove it'') (\<lambda>_.
                       RemoveAll storePath) w
                  else ret () w) (\<lambda>_.
     andThen (Mkdir storePath) (\<lambda>_.
     let newPath = Join storePath (pathBase (Path movie));
         oldPath = Path movie in
     andThen (logf Debug ''Old path, new path'') (\<lambda>_.
     andThen (Rename (Path movie) newPath) (\<lambda>_.
     let movie = movie\<lparr>Path := newPath\<rparr> in
     andThen (\<lambda>w. case Symlink (Path movie) oldPath w of
                    (Inl e, w') \<Rightarrow> logf Warn ''Error while making symlink'' w'
                  | (Inr u, w') \<Rightarrow> (Inr u, w')) (\<lambda>_.
     andThen (writeMovieNFO (NfoPath (Path movie)) movie) (\<lambda>_.
     andThen (MovieIndex_Add movie) (\<lambda>_.
     if Fanart movie = [] \<or> Thumb movie = [] then fail ErrMissingMovieImageURL
     else
       andThen (download (Fanart movie) (MovieFanartPath movie)) (\<lambda>_.
       download (Thumb movie) (MovieThumbPath movie)))))))))"

text \<open>Lines 124 to 197 of \<^verbatim>\<open>AddMovie\<close>: a movie that is in its directory already is left there.\<close>

definition installMovie :: "library \<Rightarrow> movie \<Rightarrow> unit io" where
  "installMovie l movie =
     (let storePath = getMovieDir l movie in
      if pathDir (Path movie) = storePath
      then logf Debug ''Movie already in the destination folder''
      else storeMovie l movie storePath)"

definition AddMovie :: "library \<Rightarrow> movie \<Rightarrow> unit io" where
  "AddMovie l movie =
     (if Path movie = [] then fail ErrMissingMovieFilePath
      else andThen (supersedeMovie l movie) (\<lambda>_. installMovie l movie))"

subsection \<open>Adding an episode\<close>

definition addShow :: "library \<Rightarrow> episode \<Rightarrow> unit io" where
  "addShow l ep =
     (let dir = getShowDir l ep;
          nfoPath = showNFOPath l dir in
      (\<lambda>w. if exists nfoPath w then ret () w
       else
         andThen (case ep_Show ep of
                    Some s \<Rightarrow> ret s
                  | None \<Rightarrow>
                      (case GetDetails l (NewShowFromEpisode ep) of
                         (FetchOk, s) \<Rightarrow> ret s
                       | (FetchFailed, s) \<Rightarrow> andThen (logf Error ''details'') (\<lambda>_. ret s)
                       | (FetchFatal, s) \<Rightarrow>
                           andThen (logf Error ''details'') (\<lambda>_. fail ErrFatalDetails))) (\<lambda>s.
         andThen (mkdirIfAbsent dir) (\<lambda>_.
         andThen (writeShowNFO nfoPath s) (\<lambda>_.
         if show_Fanart s = [] \<or> show_Banner s = [] \<or> show_Poster s = []
         then fail ErrMissingShowImageURL
         else
           andThen (download (show_Fanart s) (Join dir ''fanart.jpg'')) (\<lambda>_.
           andThen (download (show_Poster s) (Join dir ''poster.jpg'')) (\<lambda>_.
           download (show_Banner s) (Join dir ''banner.jpg'')))))) w))"

text \<open>Lines 280 to 294 of \<^verbatim>\<open>AddShowEpisode\<close>: an episode already in the index is deleted first.\<close>

definition supersedeEpisode :: "library \<Rightarrow> episode \<Rightarrow> unit io" where
  "supersedeEpisode l ep =
     andThen (HasShowEpisode l (ShowImdbID ep) (Season ep) (Episode ep)) (\<lambda>ok.
     if ok then
       andThen (GetEpisode l (ShowImdbID ep) (Season ep) (Episode ep)) (\<lambda>oldEpisode.
       DeleteShowEpisode l oldEpisode)
     else ret ())"

text \<open>Lines 316 to 339 of \<^verbatim>\<open>AddShowEpisode\<close>: the move, the link, the sidecar, the index.\<close>

definition storeEpisode :: "library \<Rightarrow> episode \<Rightarrow> path \<Rightarrow> unit io" where
  "storeEpisode l ep seasonDir =
     (let oldPath = ep_Path ep;
          newPath = Join seasonDir (pathBase (ep_Path ep)) in
      andThen (logf Debug ''Moving episode to folder'') (\<lambda>_.
      andThen (Rename (ep_Path ep) newPath) (\<lambda>_.
      let ep = ep\<lparr>ep_Path := newPath\<rparr> in
      andThen (\<lambda>w. case Symlink (ep_Path ep) oldPath w of
                     (Inl e, w') \<Rightarrow> logf Warn ''Error while making symlink'' w'
                   | (Inr u, w') \<Rightarrow> (Inr u, w')) (\<lambda>_.
      andThen (writeEpisodeNFO (NfoPath (ep_Path ep)) ep) (\<lambda>_.
      ShowIndex_Add ep)))))"

text \<open>
  Lines 296 to 339 of \<^verbatim>\<open>AddShowEpisode\<close>: the show, the season directory, and the episode,
  which is left where it is when it is in the season directory already.
\<close>

definition installEpisode :: "library \<Rightarrow> episode \<Rightarrow> unit io" where
  "installEpisode l ep =
     andThen (addShow l ep) (\<lambda>_.
     let seasonDir = getSeasonDir l ep in
     andThen (mkdirIfAbsent seasonDir) (\<lambda>_.
     if pathDir (ep_Path ep) = seasonDir
     then logf Debug ''show episode already in the destination folder''
     else storeEpisode l ep seasonDir))"

definition AddShowEpisode :: "library \<Rightarrow> episode \<Rightarrow> unit io" where
  "AddShowEpisode l ep =
     (if ep_Path ep = [] then fail ErrMissingShowEpisodeFilePath
      else andThen (supersedeEpisode l ep) (\<lambda>_. installEpisode l ep))"

section \<open>Where an error can come from\<close>

text \<open>\<open>failsOnly P m\<close>: whenever \<open>m\<close> fails, its error satisfies \<open>P\<close>.\<close>

definition failsOnly :: "(error \<Rightarrow> bool) \<Rightarrow> 'a io \<Rightarrow> bool" where
  "failsOnly P m \<longleftrightarrow> (\<forall>w e w'. m w = (Inl e, w') \<longrightarrow> P e)"

text \<open>\<open>foreign m\<close>: \<open>m\<close> fails only with errors that package \<^verbatim>\<open>library\<close> does not declare.\<close>

definition foreign :: "'a io \<Rightarrow> bool" where
  "foreign m \<longleftrightarrow> failsOnly (\<lambda>e. \<not> libraryError e) m"

section \<open>What a call leaves as it was\<close>

text \<open>
  \<open>sameBelow d w w'\<close>: the worlds refuse the same calls, have the same indexes, and hold the
  same at every path strictly below \<open>d\<close>. \<open>keeps Q m\<close>: whatever \<open>m\<close> returns, the world
  it leaves is related by \<open>Q\<close> to the world it started in.
\<close>

definition sameBelow :: "path \<Rightarrow> world \<Rightarrow> world \<Rightarrow> bool" where
  "sameBelow d w w' \<longleftrightarrow>
     refused w' = refused w \<and> movieIndex w' = movieIndex w \<and> showIndex w' = showIndex w \<and>
     (\<forall>x r. lookup (root w') (d @ x # r) = lookup (root w) (d @ x # r))"

definition keeps :: "(world \<Rightarrow> world \<Rightarrow> bool) \<Rightarrow> 'a io \<Rightarrow> bool" where
  "keeps Q m \<longleftrightarrow> (\<forall>w r w'. m w = (r, w') \<longrightarrow> Q w w')"

section \<open>Rebuilding the indexes (lib/library/index.go)\<close>

subsection \<open>\<^verbatim>\<open>filepath.Walk\<close>\<close>

text \<open>
  What a walk function, and a walk, comes back with: \<^verbatim>\<open>nil\<close>, an error, the error value
  \<^verbatim>\<open>filepath.SkipDir\<close>, or a panic of the Go runtime (a method called on a nil
  \<^verbatim>\<open>os.FileInfo\<close>), which unwinds the walk and ends the process.
\<close>

datatype outcome = Nil | Err error | SkipDir | Panic

text \<open>
  \<^verbatim>\<open>filepath.WalkFunc\<close>: the path, the \<^verbatim>\<open>os.FileInfo\<close> (nil when \<^verbatim>\<open>Lstat\<close> failed) and the
  error of the walk, if any. The walk function works on a state of its own.
\<close>

type_synonym 's WalkFunc = "path \<Rightarrow> node option \<Rightarrow> error option \<Rightarrow> 's \<Rightarrow> outcome \<times> 's"

definition Lstat :: "path \<Rightarrow> world \<Rightarrow> error + node" where
  "Lstat p w =
     (if SysLstat p \<in> set (refused w) then Inl (ErrOS EACCES)
      else (case lookup (root w) p of None \<Rightarrow> Inl (ErrOS ENOENT) | Some n \<Rightarrow> Inr n))"

text \<open>
  \<^verbatim>\<open>walk\<close> of package \<^verbatim>\<open>path/filepath\<close>, as the Go standard library has it since Go 1.16.
  A file or a link is handed to the walk function. For a directory the names are read
  first and the walk function is called with the error of the reading; if either failed
  the walk of this directory is over. Then every entry is visited, in the order in which
  the directory lists them (\<^verbatim>\<open>readDirNames\<close> sorts the names: the tree of a real disk
  lists the entries of a directory by name): when its \<^verbatim>\<open>Lstat\<close>
  fails the walk function is called with a nil \<^verbatim>\<open>FileInfo\<close> and the error, and the walk
  stops on an error other than \<^verbatim>\<open>SkipDir\<close>; otherwise the entry is walked, and the walk
  stops on an error unless the entry is a directory that asked to be skipped. \<open>sys\<close> is the
  list of the refused calls.
\<close>

fun walk :: "syscall list \<Rightarrow> 's WalkFunc \<Rightarrow> path \<Rightarrow> node \<Rightarrow> 's \<Rightarrow> outcome \<times> 's"
and walkNames ::
  "syscall list \<Rightarrow> 's WalkFunc \<Rightarrow> path \<Rightarrow> (string \<times> node) list \<Rightarrow> 's \<Rightarrow> outcome \<times> 's"
where
  "walk sys fn p (Dir es) s =
     (let err = (if SysReadDir p \<in> set sys then Some (ErrOS EACCES) else None) in
      case fn p (Some (Dir es)) err s of
        (err1, s1) \<Rightarrow>
          if err \<noteq> None \<or> err1 \<noteq> Nil then (err1, s1) else walkNames sys fn p es s1)"
| "walk sys fn p (File c) s = fn p (Some (File c)) None s"
| "walk sys fn p (Link t) s = fn p (Some (Link t)) None s"
| "walkNames sys fn p [] s = (Nil, s)"
| "walkNames sys fn p ((name, n) # rest) s =
     (let filename = p @ [name] in
      if SysLstat filename \<in> set sys then
        (case fn filename None (Some (ErrOS EACCES)) s of
           (err, s1) \<Rightarrow>
             if err \<noteq> Nil \<and> err \<noteq> SkipDir then (err, s1) else walkNames sys fn p rest s1)
      else
        (case walk sys fn filename n s of
           (err, s1) \<Rightarrow>
             if err \<noteq> Nil \<and> (\<not> IsDir n \<or> err \<noteq> SkipDir) then (err, s1)
             else walkNames sys fn p rest s1))"

text \<open>
  \<^verbatim>\<open>filepath.Walk\<close>: when \<^verbatim>\<open>Lstat\<close> of the root fails, the walk function is called with a
  nil \<^verbatim>\<open>FileInfo\<close> and the error; \<^verbatim>\<open>SkipDir\<close> at the top is no error. \<open>disk\<close> is the world
  whose tree is walked.
\<close>

definition Walk :: "world \<Rightarrow> path \<Rightarrow> 's WalkFunc \<Rightarrow> 's \<Rightarrow> outcome \<times> 's" where
  "Walk disk rt fn s =
     (case (case Lstat rt disk of
              Inl e \<Rightarrow> fn rt None (Some e) s
            | Inr info \<Rightarrow> walk (refused disk) fn rt info s) of
        (err, s1) \<Rightarrow> (if err = SkipDir then Nil else err, s1))"

subsection \<open>The two scans\<close>

definition logged :: "level \<Rightarrow> string \<Rightarrow> world \<Rightarrow> world" where
  "logged lvl msg w = snd (logf lvl msg w)"

text \<open>The walk function of \<^verbatim>\<open>buildMovieIndex\<close> (lines 53 to 91).\<close>

definition movieWalkFn :: "library \<Rightarrow> world WalkFunc" where
  "movieWalkFn l filePath file err w =
     (case err of
        Some e \<Rightarrow> (Nil, logged Error ''library: failed to walk'' w)
      | None \<Rightarrow>
          (case file of
             None \<Rightarrow> (Panic, w)
           | Some f \<Rightarrow>
               if IsDir f then (Nil, w)
               else
                 let ext = pathExt filePath;
                     moviePath = (if ext \<in> set (VideoExtentions l) then filePath else [])
                 in if moviePath = [] then (Nil, w)
                    else (case newMovieFromPath l moviePath w of
                            (Inl e, w') \<Rightarrow>
                              (Nil, logged Error ''library: failed to read movie NFO'' w')
                          | (Inr movie, w') \<Rightarrow> (Nil, snd (MovieIndex_Add movie w')))))"

definition buildMovieIndex :: "library \<Rightarrow> world \<Rightarrow> outcome \<times> world" where
  "buildMovieIndex l w =
     (case Walk w (MovieDir l) (movieWalkFn l) w of
        (err, w') \<Rightarrow> if err = Panic then (Panic, w') else (err, logged Info ''Index built'' w'))"

text \<open>The walk function of \<^verbatim>\<open>scanEpisodes\<close> (lines 145 to 184).\<close>

definition episodeWalkFn :: "library \<Rightarrow> string \<Rightarrow> world WalkFunc" where
  "episodeWalkFn l imdbID filePath file err w =
     (case err of
        Some e \<Rightarrow> (Nil, logged Error ''library: failed to walk'' w)
      | None \<Rightarrow>
          (case file of
             None \<Rightarrow> (Panic, w)
           | Some f \<Rightarrow>
               if IsDir f then (Nil, w)
               else
                 let ext = pathExt filePath;
                     epPath = (if ext \<in> set (VideoExtentions l) then filePath else [])
                 in if epPath = [] then (Nil, w)
                    else (case newEpisodeFromPath l epPath w of
                            (Inl e, w') \<Rightarrow>
                              (Nil, logged Error ''library: failed to read episode NFO'' w')
                          | (Inr ep, w') \<Rightarrow>
                              (Nil, snd (ShowIndex_Add (ep\<lparr>ShowImdbID := imdbID\<rparr>) w')))))"

definition scanEpisodes :: "library \<Rightarrow> string \<Rightarrow> path \<Rightarrow> world \<Rightarrow> outcome \<times> world" where
  "scanEpisodes l imdbID showRootPath w = Walk w showRootPath (episodeWalkFn l imdbID) w"

text \<open>
  The walk function of \<^verbatim>\<open>buildShowIndex\<close> (lines 104 to 132). Its state is the variable
  \<^verbatim>\<open>rootWalked\<close> and the world. It does not look at the error it is given: its first
  statement calls \<^verbatim>\<open>file.IsDir()\<close>.
\<close>

definition showWalkFn :: "library \<Rightarrow> (bool \<times> world) WalkFunc" where
  "showWalkFn l filePath file err s =
     (case s of (rootWalked, w) \<Rightarrow>
        (case file of
           None \<Rightarrow> (Panic, s)
         | Some f \<Rightarrow>
             if \<not> IsDir f then (Nil, s)
             else if \<not> rootWalked then (Nil, (True, w))
             else
               (case newShowFromPath l (showNFOPath l filePath) w of
                  (Inl e, w') \<Rightarrow>
                    (Nil, (rootWalked, logged Error ''library: failed to read tv show NFO'' w'))
                | (Inr s', w') \<Rightarrow>
                    (case scanEpisodes l (show_ImdbID s') filePath w' of
                       (err', w'') \<Rightarrow>
                         if err' \<noteq> Nil then (err', (rootWalked, w''))
                         else (SkipDir, (rootWalked, w''))))))"

definition buildShowIndex :: "library \<Rightarrow> world \<Rightarrow> outcome \<times> world" where
  "buildShowIndex l w =
     (case Walk w (ShowDir l) (showWalkFn l) (False, w) of
        (err, (rootWalked, w')) \<Rightarrow>
          if err \<noteq> Nil then (err, w') else (Nil, logged Info ''Index built'' w'))"

subsection \<open>\<^verbatim>\<open>RebuildIndex\<close>\<close>

text \<open>
  \<^verbatim>\<open>RebuildIndex\<close> clears the movie index, starts the movie scan, clears the show index,
  starts the show scan, waits for both and returns the first error it finds in the channel.
  The movie scan reads the tree and writes the movie index only, the show scan reads the
  tree and writes the show index only, so the model runs the movie scan and then the show
  scan; the order of the log lines and of the errors in the channel is the one of this
  schedule. A panic in either scan ends the process: the outcome is \<open>Panic\<close>.
\<close>

definition RebuildIndex :: "library \<Rightarrow> world \<Rightarrow> outcome \<times> world" where
  "RebuildIndex l w =
     (let w1 = snd (MovieIndex_Clear w);
          w2 = snd (ShowIndex_Clear w1) in
      case buildMovieIndex l w2 of
        (errMovie, w3) \<Rightarrow>
          (case buildShowIndex l w3 of
             (errShow, w4) \<Rightarrow>
               if errMovie = Panic \<or> errShow = Panic then (Panic, w4)
               else if errMovie \<noteq> Nil then (errMovie, w4)
               else (errShow, w4)))"

section \<open>Runs that differ in the log only\<close>

text \<open>
  Two worlds with the same disk: the same tree and the same refused calls; with the same
  movie index or the same show index besides. Two worlds with the same disk and the same
  indexes differ in their logs at most.
\<close>

definition sameDisk :: "world \<Rightarrow> world \<Rightarrow> bool" where
  "sameDisk w w' \<longleftrightarrow> root w' = root w \<and> refused w' = refused w"

definition sameMovies :: "world \<Rightarrow> world \<Rightarrow> bool" where
  "sameMovies w w' \<longleftrightarrow> sameDisk w w' \<and> movieIndex w' = movieIndex w"

definition sameShows :: "world \<Rightarrow> world \<Rightarrow> bool" where
  "sameShows w w' \<longleftrightarrow> sameDisk w w' \<and> showIndex w' = showIndex w"

definition sameIndexes :: "world \<Rightarrow> world \<Rightarrow> bool" where
  "sameIndexes w w' \<longleftrightarrow>
     sameDisk w w' \<and> movieIndex w' = movieIndex w \<and> showIndex w' = showIndex w"

text \<open>
  Two runs of a walk agree when they come back with the same outcome and related states; a
  walk function preserves a relation when it agrees on related states.
\<close>

definition agree :: "('s \<Rightarrow> 's \<Rightarrow> bool) \<Rightarrow> outcome \<times> 's \<Rightarrow> outcome \<times> 's \<Rightarrow> bool" where
  "agree R x y \<longleftrightarrow> fst x = fst y \<and> R (snd x) (snd y)"

definition preserves :: "('s \<Rightarrow> 's \<Rightarrow> bool) \<Rightarrow> 's WalkFunc \<Rightarrow> bool" where
  "preserves R fn \<longleftrightarrow> (\<forall>p f e a b. R a b \<longrightarrow> agree R (fn p f e a) (fn p f e b))"

section \<open>Example inputs\<close>

text \<open>
  A library with the movie root \<^verbatim>\<open>/movies\<close> and the show root \<^verbatim>\<open>/shows\<close>, whose detail
  fetch succeeds and changes nothing.
\<close>

definition exLibrary :: library where
  "exLibrary =
     \<lparr>MovieDir = [''movies''], ShowDir = [''shows''], VideoExtentions = [''.mkv'', ''.avi''],
      GetDetails = (\<lambda>s. (FetchOk, s))\<rparr>"

text \<open>The movie tt001, stored at \<^verbatim>\<open>/movies/Foo (2020)/foo.mkv\<close>.\<close>

definition exStoredMovie :: movie where
  "exStoredMovie =
     \<lparr>ImdbID = ''tt001'', Title = ''Foo'', Year = 2020,
      Path = [''movies'', ''Foo (2020)'', ''foo.mkv''],
      Fanart = ''http://img/fanart'', Thumb = ''http://img/thumb''\<rparr>"

text \<open>The show tt100 and its episode 1 of season 1, stored below \<^verbatim>\<open>/shows/Bar/Season 1\<close>.\<close>

definition exShow :: tvshow where
  "exShow =
     \<lparr>show_ImdbID = ''tt100'', show_Title = ''Bar'', show_Fanart = ''http://img/f'',
      show_Banner = ''http://img/b'', show_Poster = ''http://img/p''\<rparr>"

definition exStoredEpisode :: episode where
  "exStoredEpisode =
     \<lparr>ShowImdbID = ''tt100'', ShowTitle = ''Bar'', Season = 1, Episode = 1,
      ep_Path = [''shows'', ''Bar'', ''Season 1'', ''bar.s01e01.mkv''], ep_Show = None\<rparr>"

text \<open>
  A disk that holds the stored movie and the stored episode with their sidecars, and three
  downloaded files in \<^verbatim>\<open>/tmp\<close>.
\<close>

definition exTree :: node where
  "exTree =
     Dir [(''movies'',
            Dir [(''Foo (2020)'',
                   Dir [(''foo.mkv'', File Media),
                        (''foo.nfo'', File (MovieNFO (exStoredMovie\<lparr>Path := []\<rparr>)))])]),
          (''shows'',
            Dir [(''Bar'',
                   Dir [(''tvshow.nfo'', File (ShowNFO exShow)),
                        (''Season 1'',
                          Dir [(''bar.s01e01.mkv'', File Media),
                               (''bar.s01e01.nfo'',
                                 File (EpisodeNFO (exStoredEpisode\<lparr>ep_Path := []\<rparr>)))])])]),
          (''tmp'',
            Dir [(''foo.mkv'', File Media), (''baz.mkv'', File Media),
                 (''bar.s01e01.mkv'', File Media)])]"

text \<open>The world in which both are indexed and no call is refused.\<close>

definition exWorld :: world where
  "exWorld =
     \<lparr>root = exTree, refused = [],
      movieIndex = [''tt001'' \<mapsto> [''movies'', ''Foo (2020)'', ''foo.mkv'']],
      showIndex =
        [''tt100'' \<mapsto> [1 \<mapsto> [1 \<mapsto> [''shows'', ''Bar'', ''Season 1'', ''bar.s01e01.mkv'']]]],
      logs = []\<rparr>"

text \<open>The same disk with empty indexes: nothing has been indexed yet.\<close>

definition exBareWorld :: world where
  "exBareWorld = exWorld\<lparr>movieIndex := Map.empty, showIndex := Map.empty\<rparr>"

text \<open>A new copy of the movie tt001, downloaded to \<^verbatim>\<open>/tmp/foo.mkv\<close>.\<close>

definition exNewMovie :: movie where
  "exNewMovie = exStoredMovie\<lparr>Path := [''tmp'', ''foo.mkv'']\<rparr>"

text \<open>A movie without artwork URLs, downloaded to \<^verbatim>\<open>/tmp/baz.mkv\<close>.\<close>

definition exNoArtMovie :: movie where
  "exNoArtMovie =
     \<lparr>ImdbID = ''tt002'', Title = ''Baz'', Year = 0, Path = [''tmp'', ''baz.mkv''],
      Fanart = [], Thumb = []\<rparr>"

text \<open>
  A new copy of the stored episode, downloaded to \<^verbatim>\<open>/tmp/bar.s01e01.mkv\<close>, with its show
  attached.
\<close>

definition exNewEpisode :: episode where
  "exNewEpisode =
     exStoredEpisode\<lparr>ep_Path := [''tmp'', ''bar.s01e01.mkv''], ep_Show := Some exShow\<rparr>"

text \<open>
  A disk on which the file of the movie tt001 was put into its directory by hand, with no
  sidecar, and nothing is indexed.
\<close>

definition exPlacedWorld :: world where
  "exPlacedWorld =
     \<lparr>root = Dir [(''movies'', Dir [(''Foo (2020)'', Dir [(''foo.mkv'', File Media)])])],
      refused = [], movieIndex = Map.empty, showIndex = Map.empty, logs = []\<rparr>"

text \<open>
  An episode of a show that is not on the disk and for which no artwork is known,
  downloaded to \<^verbatim>\<open>/tmp/bar.s01e01.mkv\<close>.
\<close>

definition exNoArtEpisode :: episode where
  "exNoArtEpisode =
     \<lparr>ShowImdbID = ''tt200'', ShowTitle = ''Qux'', Season = 2, Episode = 3,
      ep_Path = [''tmp'', ''bar.s01e01.mkv''], ep_Show = None\<rparr>"

text \<open>The stored episode where it is stored, handed in with its show attached.\<close>

definition exAttachedEpisode :: episode where
  "exAttachedEpisode = exStoredEpisode\<lparr>ep_Show := Some exShow\<rparr>"

text \<open>A disk with an empty movie root and no show root at all, and empty indexes.\<close>

definition exNoShowsWorld :: world where
  "exNoShowsWorld = exBareWorld\<lparr>root := Dir [(''movies'', Dir [])]\<rparr>"

text \<open>The example disk with empty indexes, on which the movie root cannot be read.\<close>

definition exRefusedWorld :: world where
  "exRefusedWorld = exBareWorld\<lparr>refused := [SysReadDir [''movies'']]\<rparr>"

text \<open>
  The example disk with indexes that hold a movie and an episode whose files are not on
  the disk.
\<close>

definition exStaleWorld :: world where
  "exStaleWorld =
     exWorld\<lparr>movieIndex := [''tt999'' \<mapsto> [''movies'', ''Gone'', ''gone.mkv'']],
              showIndex := [''tt888'' \<mapsto> [2 \<mapsto> [5 \<mapsto> [''shows'', ''Gone'', ''Season 2'', ''gone.mkv'']]]]\<rparr>"

text \<open>
  A disk with two movies and empty indexes: the sidecar of the first is not a document,
  the second is the stored movie with its sidecar.
\<close>

definition exBrokenWorld :: world where
  "exBrokenWorld =
     exBareWorld\<lparr>root :=
       Dir [(''movies'',
              Dir [(''Aaa'', Dir [(''aaa.mkv'', File Media), (''aaa.nfo'', File Malformed)]),
                   (''Foo (2020)'',
                     Dir [(''foo.mkv'', File Media),
                          (''foo.nfo'', File (MovieNFO (exStoredMovie\<lparr>Path := []\<rparr>)))])])]\<rparr>"

section \<open>Properties of slugs\<close>

lemma replaceWhiteSpace_set:
  "r \<in> set (replaceWhiteSpace s) \<Longrightarrow> r = 45 \<or> (r \<in> set s \<and> \<not> isSpace r)"
proof (induction s arbitrary: r rule: replaceWhiteSpace.induct)
  case 1
  then show ?case by simp
next
  case (2 c cs)
  show ?case
  proof (cases "isSpace c")
    case True
    with "2.prems" have "r = 45 \<or> r \<in> set (replaceWhiteSpace (dropWhile isSpace cs))" by simp
    with "2.IH"(1)[OF True] have "r = 45 \<or> (r \<in> set (dropWhile isSpace cs) \<and> \<not> isSpace r)" by blast
    then show ?thesis using set_dropWhileD[of r isSpace cs] by auto
  next
    case False
    with "2.prems" have "r = c \<or> r \<in> set (replaceWhiteSpace cs)" by simp
    with "2.IH"(2)[OF False] False show ?thesis by auto
  qed
qed

lemma replaceWhiteSpace_id:
  "\<forall>r \<in> set s. \<not> isSpace r \<Longrightarrow> replaceWhiteSpace s = s"
  by (induction s) auto

lemma Trim_set: "r \<in> set (Trim s) \<Longrightarrow> r \<in> set s"
proof -
  assume "r \<in> set (Trim s)"
  then have "r \<in> set (dropWhile (\<lambda>r. r = 45) (rev (dropWhile (\<lambda>r. r = 45) s)))"
    by (simp add: Trim_def)
  then have "r \<in> set (rev (dropWhile (\<lambda>r. r = 45) s))" by (rule set_dropWhileD)
  then have "r \<in> set (dropWhile (\<lambda>r. r = 45) s)" by simp
  then show ?thesis by (rule set_dropWhileD)
qed

lemma leadingHyphen_dropWhile: "\<not> leadingHyphen (dropWhile (\<lambda>r. r = 45) xs)"
  by (induction xs) (simp_all add: leadingHyphen_def)

lemma Trim_no_trailing: "\<not> trailingHyphen (Trim s)"
  by (simp add: Trim_def trailingHyphen_def leadingHyphen_dropWhile)

lemma leadingHyphen_strip_end:
  "\<not> leadingHyphen xs \<Longrightarrow> \<not> leadingHyphen (rev (dropWhile (\<lambda>r. r = 45) (rev xs)))"
proof (cases xs)
  case Nil
  then show ?thesis by (simp add: leadingHyphen_def)
next
  case (Cons x ys)
  assume "\<not> leadingHyphen xs"
  with Cons have "x \<noteq> 45" by (simp add: leadingHyphen_def)
  with Cons show ?thesis by (simp add: dropWhile_append leadingHyphen_def)
qed

lemma Trim_no_leading: "\<not> leadingHyphen (Trim s)"
  unfolding Trim_def by (rule leadingHyphen_strip_end) (rule leadingHyphen_dropWhile)

lemma Trim_id: "\<not> leadingHyphen s \<Longrightarrow> \<not> trailingHyphen s \<Longrightarrow> Trim s = s"
proof -
  assume a: "\<not> leadingHyphen s" and b: "\<not> trailingHyphen s"
  from a have "dropWhile (\<lambda>r. r = 45) s = s"
    by (cases s) (simp_all add: leadingHyphen_def)
  moreover from b have "dropWhile (\<lambda>r. r = 45) (rev s) = rev s"
    by (cases "rev s") (simp_all add: trailingHyphen_def leadingHyphen_def)
  ultimately show ?thesis by (simp add: Trim_def)
qed

lemma slug_runes: "r \<in> set (slug tbl txt) \<Longrightarrow> slugRune r"
proof -
  assume "r \<in> set (slug tbl txt)"
  then have "r \<in> set (replaceWhiteSpace (removeInvalid (ToLower tbl txt)))"
    unfolding slug_def by (rule Trim_set)
  then have "r = 45 \<or> (r \<in> set (removeInvalid (ToLower tbl txt)) \<and> \<not> isSpace r)"
    by (rule replaceWhiteSpace_set)
  then show ?thesis
    by (auto simp: removeInvalid_def validSlugRune_def slugRune_def isSpace_def)
qed

lemma slugRune_lower: "slugRune r \<Longrightarrow> toLowerRune tbl r = r"
  by (auto simp: slugRune_def toLowerRune_def)

lemma slug_fixpoint:
  assumes "\<forall>r \<in> set s. slugRune r" "\<not> leadingHyphen s" "\<not> trailingHyphen s"
  shows "slug tbl s = s"
proof -
  from assms(1) have "ToLower tbl s = s"
    by (simp add: ToLower_def slugRune_lower map_idI)
  moreover from assms(1) have "removeInvalid s = s"
    by (auto simp: removeInvalid_def slugRune_def validSlugRune_def intro!: filter_True)
  moreover from assms(1) have "replaceWhiteSpace s = s"
    by (intro replaceWhiteSpace_id) (auto simp: slugRune_def isSpace_def)
  ultimately show ?thesis using assms(2,3) by (simp add: slug_def Trim_id)
qed

text \<open>
  Claim C10. For every input string, \<open>slug\<close> returns a string that holds only lowercase
  letters, digits, underscores and hyphens, with no hyphen at its start or its end, and
  \<open>slug\<close> is idempotent: slugging a slug gives it back. This holds whatever the case table
  for the runes beyond ASCII is.
\<close>

theorem slug_charset_idempotent:
  "(\<forall>r \<in> set (slug tbl s). slugRune r) \<and> \<not> leadingHyphen (slug tbl s) \<and>
   \<not> trailingHyphen (slug tbl s) \<and> slug tbl (slug tbl s) = slug tbl s"
proof -
  have a: "\<forall>r \<in> set (slug tbl s). slugRune r" by (simp add: slug_runes)
  have b: "\<not> leadingHyphen (slug tbl s)" by (simp add: slug_def Trim_no_leading)
  have c: "\<not> trailingHyphen (slug tbl s)" by (simp add: slug_def Trim_no_trailing)
  from a b c show ?thesis by (simp add: slug_fixpoint)
qed

text \<open>The same at the title \<^verbatim>\<open>" -Hello, World 2! "\<close>, whose slug is \<^verbatim>\<open>hello-world-2\<close>.\<close>

theorem slug_charset_idempotent_witness:
  "slug id [32, 45, 72, 101, 108, 108, 111, 44, 32, 87, 111, 114, 108, 100, 32, 50, 33, 32]
     = [104, 101, 108, 108, 111, 45, 119, 111, 114, 108, 100, 45, 50] \<and>
   list_all slugRune [104, 101, 108, 108, 111, 45, 119, 111, 114, 108, 100, 45, 50] \<and>
   \<not> leadingHyphen [104, 101, 108, 108, 111, 45, 119, 111, 114, 108, 100, 45, 50] \<and>
   \<not> trailingHyphen [104, 101, 108, 108, 111, 45, 119, 111, 114, 108, 100, 45, 50] \<and>
   slug id [104, 101, 108, 108, 111, 45, 119, 111, 114, 108, 100, 45, 50]
     = [104, 101, 108, 108, 111, 45, 119, 111, 114, 108, 100, 45, 50]"
proof -
  have e: "slug id [32, 45, 72, 101, 108, 108, 111, 44, 32, 87, 111, 114, 108, 100, 32, 50, 33, 32]
     = [104, 101, 108, 108, 111, 45, 119, 111, 114, 108, 100, 45, 50]"
    by (simp add: slug_def Trim_def removeInvalid_def ToLower_def toLowerRune_def
        validSlugRune_def isSpace_def)
  from slug_charset_idempotent
    [of id "[32, 45, 72, 101, 108, 108, 111, 44, 32, 87, 111, 114, 108, 100, 32, 50, 33, 32]"]
  show ?thesis unfolding e by (simp add: list_all_iff)
qed

section \<open>Properties of the file system and of the sequencing\<close>

lemma lookup_remove_below:
  "p \<noteq> [] \<Longrightarrow> lookup (remove p t) (p @ q) = None"
  by (induction p t rule: remove.induct)
     (simp_all add: AList.delete_conv' AList.map_of_map_entry split: option.splits)

lemma lookup_remove_None:
  "lookup t q = None \<Longrightarrow> lookup (remove p t) q = None"
proof (induction p t arbitrary: q rule: remove.induct)
  case (2 c es)
  then show ?case
    by (cases q) (auto simp: AList.delete_conv' split: option.splits)
next
  case (3 c v va es)
  then show ?case
    by (cases q) (auto simp: AList.map_of_map_entry split: option.splits)
qed simp_all

lemma RemoveAll_removable:
  "removable w p \<Longrightarrow> RemoveAll p w = (Inr (), w\<lparr>root := remove p (root w)\<rparr>)"
  by (simp add: removable_def RemoveAll_def setRoot_def)

lemma RemoveAll_eval:
  "removable w p \<Longrightarrow> refused w' = refused w \<Longrightarrow>
   RemoveAll p w' = (Inr (), w'\<lparr>root := remove p (root w')\<rparr>)"
  by (simp add: removable_def RemoveAll_def setRoot_def)

lemma RemoveAll_not_removable:
  "\<not> removable w p \<Longrightarrow> \<exists>e. RemoveAll p w = (Inl (ErrOS e), w)"
  by (auto simp: removable_def RemoveAll_def fail_def)

lemma andThen_assoc: "andThen (andThen m f) g = andThen m (\<lambda>x. andThen (f x) g)"
  by (auto simp: andThen_def fun_eq_iff split: prod.splits sum.splits)

lemma andThen_Inr: "m w = (Inr x, w') \<Longrightarrow> andThen m f w = f x w'"
  by (simp add: andThen_def)

lemma andThen_Inl: "m w = (Inl e, w') \<Longrightarrow> andThen m f w = (Inl e, w')"
  by (simp add: andThen_def)

text \<open>The definitions that evaluate a path on a concrete input.\<close>

lemmas path_defs =
  Join_def cleanStep_def itoa_def decimal.simps digit_def pathDir_def pathBase_def pathExt_def
  nameExt_def appendToName_def PathWithoutExt_def NfoPath_def fileToDelete_def

lemmas example_defs =
  exLibrary_def exStoredMovie_def exShow_def exStoredEpisode_def exTree_def exWorld_def
  exBareWorld_def exNewMovie_def exNoArtMovie_def exNewEpisode_def exPlacedWorld_def
  exNoArtEpisode_def exAttachedEpisode_def exNoShowsWorld_def exRefusedWorld_def
  exStaleWorld_def exBrokenWorld_def

lemmas io_defs = andThen_def ret_def fail_def logf_def setRoot_def Let_def

lemmas os_defs =
  RemoveAll_def Mkdir_def Rename_def Symlink_def writeFile_def readFile_def exists_def
  mkdirIfAbsent_def download_def writeMovieNFO_def writeShowNFO_def writeEpisodeNFO_def
  readMovieNFO_def readShowNFO_def readEpisodeNFO_def

lemmas index_defs =
  MovieIndex_Has_def MovieIndex_Add_def MovieIndex_Remove_def MoviePath_def HasEpisode_def
  ShowIndex_Add_def EpisodePath_def RemoveEpisode_def IsSeasonEmpty_def IsShowEmpty_def
  RemoveSeason_def RemoveShow_def

lemmas library_defs =
  HasMovie_def HasShowEpisode_def getMovieDir_def newMovieFromPath_def newEpisodeFromPath_def
  newShowFromPath_def NewShowFromEpisode_def GetMovie_def GetEpisode_def DeleteMovie_def
  getShowDir_def getSeasonDir_def showNFOPath_def cascadeSeason_def cascadeShow_def
  DeleteShowEpisode_def MovieFanartPath_def MovieThumbPath_def supersedeMovie_def
  storeMovie_def installMovie_def AddMovie_def addShow_def supersedeEpisode_def
  storeEpisode_def installEpisode_def AddShowEpisode_def showOfID_def

lemmas rebuild_defs =
  Lstat_def Walk_def logged_def movieWalkFn_def buildMovieIndex_def episodeWalkFn_def
  scanEpisodes_def showWalkFn_def buildShowIndex_def RebuildIndex_def MovieIndex_Clear_def
  ShowIndex_Clear_def

section \<open>Deleting\<close>

text \<open>
  Claim C6. \<open>DeleteMovie\<close> first removes the directory that holds the movie's file, with all
  that is in it, and then the movie's index entry. When the removal of the directory fails,
  the error of the operating system is what \<open>DeleteMovie\<close> returns and the movie index is as
  it was. When the removal succeeds, nothing is left at or below the directory; the entry
  of an indexed movie is then taken out of the index, and a movie that was not indexed
  gives NotFound, with the directory gone all the same.
\<close>

theorem DeleteMovie_directory_then_index:
  "(\<not> removable w (pathDir (Path m)) \<longrightarrow>
      (\<exists>e w'. DeleteMovie l m w = (Inl (ErrOS e), w') \<and> movieIndex w' = movieIndex w)) \<and>
   (removable w (pathDir (Path m)) \<longrightarrow>
      (\<exists>r w'. DeleteMovie l m w = (r, w') \<and>
         (\<forall>q. lookup (root w') (pathDir (Path m) @ q) = None) \<and>
         (movieIndex w (ImdbID m) \<noteq> None \<longrightarrow>
            r = Inr () \<and> movieIndex w' = (movieIndex w)(ImdbID m := None)) \<and>
         (movieIndex w (ImdbID m) = None \<longrightarrow>
            r = Inl ErrNotFound \<and> movieIndex w' = movieIndex w)))"
proof (intro conjI impI)
  assume n: "\<not> removable w (pathDir (Path m))"
  then have "\<not> removable (snd (logf Info ''Removing Movie'' w)) (pathDir (Path m))"
    by (simp add: removable_def logf_def)
  from RemoveAll_not_removable[OF this] obtain e where
    "RemoveAll (pathDir (Path m)) (snd (logf Info ''Removing Movie'' w))
       = (Inl (ErrOS e), snd (logf Info ''Removing Movie'' w))" by blast
  then have "DeleteMovie l m w = (Inl (ErrOS e), snd (logf Info ''Removing Movie'' w))"
    by (simp add: DeleteMovie_def andThen_def logf_def)
  then show "\<exists>e w'. DeleteMovie l m w = (Inl (ErrOS e), w') \<and> movieIndex w' = movieIndex w"
    by (simp add: logf_def)
next
  assume r: "removable w (pathDir (Path m))"
  then have ne: "pathDir (Path m) \<noteq> []" by (simp add: removable_def)
  from r have "removable (w\<lparr>logs := logs w @ [(Info, ''Removing Movie'')]\<rparr>) (pathDir (Path m))"
    by (simp add: removable_def)
  note ra = RemoveAll_removable[OF this]
  show "\<exists>r w'. DeleteMovie l m w = (r, w') \<and>
         (\<forall>q. lookup (root w') (pathDir (Path m) @ q) = None) \<and>
         (movieIndex w (ImdbID m) \<noteq> None \<longrightarrow>
            r = Inr () \<and> movieIndex w' = (movieIndex w)(ImdbID m := None)) \<and>
         (movieIndex w (ImdbID m) = None \<longrightarrow>
            r = Inl ErrNotFound \<and> movieIndex w' = movieIndex w)"
    using ne
    by (simp add: DeleteMovie_def andThen_def ra logf_def
        MovieIndex_Remove_def fail_def lookup_remove_below)
qed

text \<open>
  The stored movie of the example: deleted when no call is refused, and kept in the index
  when the removal of its directory is refused.
\<close>

theorem DeleteMovie_directory_then_index_witness:
  "removable exWorld (pathDir (Path exStoredMovie)) \<and>
   (\<exists>w'. DeleteMovie exLibrary exStoredMovie exWorld = (Inr (), w') \<and>
      lookup (root w') [''movies'', ''Foo (2020)''] = None \<and>
      lookup (root w') [''movies'', ''Foo (2020)'', ''foo.mkv''] = None \<and>
      movieIndex w' ''tt001'' = None) \<and>
   \<not> removable (exWorld\<lparr>refused := [SysRemoveAll [''movies'', ''Foo (2020)'']]\<rparr>)
        (pathDir (Path exStoredMovie)) \<and>
   (\<exists>e w'. DeleteMovie exLibrary exStoredMovie
              (exWorld\<lparr>refused := [SysRemoveAll [''movies'', ''Foo (2020)'']]\<rparr>)
            = (Inl (ErrOS e), w') \<and>
      movieIndex w' ''tt001'' = Some [''movies'', ''Foo (2020)'', ''foo.mkv''])"
proof -
  let ?w = "exWorld\<lparr>refused := [SysRemoveAll [''movies'', ''Foo (2020)'']]\<rparr>"
  have d: "pathDir (Path exStoredMovie) = [''movies'', ''Foo (2020)'']"
    by (simp add: exStoredMovie_def pathDir_def)
  have a: "removable exWorld (pathDir (Path exStoredMovie))"
    unfolding d by (simp add: removable_def exWorld_def)
  have b: "\<not> removable ?w (pathDir (Path exStoredMovie))"
    unfolding d by (simp add: removable_def)
  have i: "movieIndex exWorld (ImdbID exStoredMovie) \<noteq> None"
    by (simp add: exWorld_def exStoredMovie_def)
  have j: "movieIndex exWorld ''tt001'' = Some [''movies'', ''Foo (2020)'', ''foo.mkv'']"
    by (simp add: exWorld_def)
  from DeleteMovie_directory_then_index[of exWorld exStoredMovie exLibrary] a i
  obtain w' where w': "DeleteMovie exLibrary exStoredMovie exWorld = (Inr (), w')"
      "\<forall>q. lookup (root w') (pathDir (Path exStoredMovie) @ q) = None"
      "movieIndex w' = (movieIndex exWorld)(ImdbID exStoredMovie := None)"
    by blast
  from w'(2)[rule_format, of "[]"] w'(2)[rule_format, of "[''foo.mkv'']"] w'(3)
  have c: "lookup (root w') [''movies'', ''Foo (2020)''] = None \<and>
      lookup (root w') [''movies'', ''Foo (2020)'', ''foo.mkv''] = None \<and>
      movieIndex w' ''tt001'' = None"
    unfolding d by (simp add: exStoredMovie_def)
  from DeleteMovie_directory_then_index[of ?w exStoredMovie exLibrary] b
  obtain e w'' where w'': "DeleteMovie exLibrary exStoredMovie ?w = (Inl (ErrOS e), w'')"
      "movieIndex w'' = movieIndex ?w"
    by blast
  from w''(2) j have "movieIndex w'' ''tt001'' = Some [''movies'', ''Foo (2020)'', ''foo.mkv'']"
    by simp
  with a b c w'(1) w''(1) show ?thesis by blast
qed

lemma DeleteShowEpisode_files:
  assumes "removable w (ep_Path se)"
    and "removable w (fileToDelete (PathWithoutExt (ep_Path se)) ''nfo'')"
    and "removable w (fileToDelete (PathWithoutExt (ep_Path se)) ''srt'')"
  shows "andThen (logf Info ''Removing ShowEpisode'') (\<lambda>_.
     andThen (if ep_Path se = [] then ret () else RemoveAll (ep_Path se)) (\<lambda>_.
     removeSidecars (PathWithoutExt (ep_Path se)) [''nfo'', ''srt''])) w
    = (Inr (), w\<lparr>root := remove (fileToDelete (PathWithoutExt (ep_Path se)) ''srt'')
                 (remove (fileToDelete (PathWithoutExt (ep_Path se)) ''nfo'')
                 (remove (ep_Path se) (root w))),
          logs := logs w @ [(Info, ''Removing ShowEpisode''), (Debug, ''Removing''), (Debug, ''Removing'')]\<rparr>)"
proof -
  from assms(1) have ne: "ep_Path se \<noteq> []" by (simp add: removable_def)
  show ?thesis
    using ne
    by (simp add: andThen_def logf_def ret_def
        RemoveAll_eval[OF assms(1)] RemoveAll_eval[OF assms(2)] RemoveAll_eval[OF assms(3)])
qed

lemma DeleteShowEpisode_unfold:
  "DeleteShowEpisode l se =
     andThen (andThen (logf Info ''Removing ShowEpisode'') (\<lambda>_.
       andThen (if ep_Path se = [] then ret () else RemoveAll (ep_Path se)) (\<lambda>_.
       removeSidecars (PathWithoutExt (ep_Path se)) [''nfo'', ''srt'']))) (\<lambda>_.
     andThen (RemoveEpisode se) (\<lambda>_.
     andThen (cascadeSeason l se) (\<lambda>_.
     cascadeShow l se)))"
  unfolding DeleteShowEpisode_def andThen_assoc ..



section \<open>Calls that leave a directory alone\<close>

lemma sameBelow_refl [simp]: "sameBelow d w w"
  by (simp add: sameBelow_def)

lemma sameBelow_trans: "sameBelow d a b \<Longrightarrow> sameBelow d b c \<Longrightarrow> sameBelow d a c"
  by (simp add: sameBelow_def)

lemma keepsD: "keeps Q m \<Longrightarrow> m w = (r, w') \<Longrightarrow> Q w w'"
  by (auto simp: keeps_def)

lemma keeps_andThen:
  assumes "keeps (sameBelow d) m" and "\<And>x. keeps (sameBelow d) (f x)"
  shows "keeps (sameBelow d) (andThen m f)"
  unfolding keeps_def
proof (intro allI impI)
  fix w r w'
  assume a: "andThen m f w = (r, w')"
  obtain r1 w1 where m: "m w = (r1, w1)" by (cases "m w")
  from assms(1) m have s1: "sameBelow d w w1" by (rule keepsD)
  show "sameBelow d w w'"
  proof (cases r1)
    case (Inl e)
    with a m s1 show ?thesis by (simp add: andThen_def)
  next
    case (Inr x)
    with a m have "f x w1 = (r, w')" by (simp add: andThen_def)
    with assms(2) have "sameBelow d w1 w'" by (rule keepsD)
    with s1 show ?thesis by (rule sameBelow_trans)
  qed
qed

lemma keeps_ret [simp]: "keeps (sameBelow d) (ret x)"
  by (simp add: keeps_def ret_def)

lemma keeps_fail [simp]: "keeps (sameBelow d) (fail e)"
  by (simp add: keeps_def fail_def)

lemma keeps_logf [simp]: "keeps (sameBelow d) (logf lvl msg)"
  by (auto simp: keeps_def logf_def sameBelow_def)

lemma keeps_if:
  "(c \<Longrightarrow> keeps Q m) \<Longrightarrow> (\<not> c \<Longrightarrow> keeps Q n) \<Longrightarrow> keeps Q (if c then m else n)"
  by simp

lemma lookup_None_append: "lookup t q = None \<Longrightarrow> lookup t (q @ r) = None"
  by (induction t q rule: lookup.induct) (auto split: option.splits)

lemma lookup_put_below: "put q n t = Some t' \<Longrightarrow> lookup t' (q @ r) = lookup n r"
proof (induction q n t arbitrary: t' rule: put.induct)
  case (2 c new es)
  then show ?case by (auto simp: AList.update_conv')
next
  case (3 c v va new es)
  then show ?case by (auto simp: AList.update_conv' split: option.splits)
qed simp_all

lemma lookup_put_aside:
  "put (d @ [a]) n t = Some t' \<Longrightarrow> a \<noteq> b \<Longrightarrow> lookup t' (d @ b # r) = lookup t (d @ b # r)"
proof (induction d arbitrary: t t')
  case Nil
  then show ?case by (cases t) (auto simp: AList.update_conv')
next
  case (Cons c d)
  show ?case
  proof (cases t)
    case (Dir es)
    obtain v va where dv: "d @ [a] = v # va" by (cases "d @ [a]") auto
    from Cons.prems(1) Dir dv obtain n0 n' where
      m: "map_of es c = Some n0" and p: "put (d @ [a]) n n0 = Some n'"
      and t': "t' = Dir (AList.update c n' es)"
      by (auto split: option.splits)
    from Cons.IH[OF p Cons.prems(2)] m t' Dir show ?thesis
      by (simp add: AList.update_conv')
  next
    case (File x)
    with Cons.prems show ?thesis by simp
  next
    case (Link x)
    with Cons.prems show ?thesis by simp
  qed
qed

lemma keeps_Mkdir_self: "keeps (sameBelow q) (Mkdir q)"
  by (auto simp: keeps_def Mkdir_def fail_def setRoot_def sameBelow_def lookup_put_below
      lookup_None_append split: if_splits option.splits)

lemma keeps_Mkdir_parent: "keeps (sameBelow (d @ [s])) (Mkdir d)"
  by (auto simp: keeps_def Mkdir_def fail_def setRoot_def sameBelow_def lookup_put_below
      lookup_None_append split: if_splits option.splits)

lemma keeps_mkdirIfAbsent_self: "keeps (sameBelow q) (mkdirIfAbsent q)"
  using keeps_Mkdir_self [of q]
  by (auto simp: keeps_def mkdirIfAbsent_def ret_def)

lemma keeps_mkdirIfAbsent_parent: "keeps (sameBelow (d @ [s])) (mkdirIfAbsent d)"
  using keeps_Mkdir_parent [of d s]
  by (auto simp: keeps_def mkdirIfAbsent_def ret_def)

lemma keeps_writeFile_aside:
  "a \<noteq> s \<Longrightarrow> keeps (sameBelow (d @ [s])) (writeFile (d @ [a]) c)"
  by (auto simp: keeps_def writeFile_def fail_def setRoot_def sameBelow_def lookup_put_aside
      split: if_splits option.splits node.splits)

lemma keeps_download_aside:
  "a \<noteq> s \<Longrightarrow> keeps (sameBelow (d @ [s])) (download url (d @ [a]))"
  using keeps_writeFile_aside [of a s d Picture]
  by (auto simp: keeps_def download_def fail_def)

lemma splitSlash_noslash: "CHR ''/'' \<notin> set s \<Longrightarrow> splitSlash acc s = [rev acc @ s]"
  by (induction s arbitrary: acc) auto

lemma digit_noslash: "d < 10 \<Longrightarrow> digit d \<noteq> CHR ''/''"
proof -
  assume "d < 10"
  then have "digit d \<in> set ''0123456789''"
    unfolding digit_def by (intro nth_mem) simp
  then show ?thesis by auto
qed

lemma decimal_noslash: "CHR ''/'' \<notin> set (decimal n)"
proof (induction n rule: decimal.induct)
  case (1 n)
  show ?case
  proof (cases "n < 10")
    case True
    then show ?thesis by (subst decimal.simps) (simp add: digit_noslash [THEN not_sym])
  next
    case False
    with 1 show ?thesis by (subst decimal.simps) (simp add: digit_noslash [THEN not_sym])
  qed
qed

lemma itoa_noslash: "CHR ''/'' \<notin> set (itoa i)"
  by (simp add: itoa_def decimal_noslash)

lemma Join_name:
  "CHR ''/'' \<notin> set s \<Longrightarrow> s \<noteq> [] \<Longrightarrow> s \<noteq> ''.'' \<Longrightarrow> s \<noteq> ''..'' \<Longrightarrow> Join d s = d @ [s]"
  by (simp add: Join_def splitSlash_noslash cleanStep_def)

lemma getSeasonDir_showDir:
  "getSeasonDir l ep = getShowDir l ep @ [''Season '' @ itoa (Season ep)]"
  unfolding getSeasonDir_def getShowDir_def
  by (rule Join_name) (simp_all add: itoa_noslash)

lemma join_name:
  "Join d ''tvshow.nfo'' = d @ [''tvshow.nfo'']" "Join d ''fanart.jpg'' = d @ [''fanart.jpg'']"
  "Join d ''poster.jpg'' = d @ [''poster.jpg'']" "Join d ''banner.jpg'' = d @ [''banner.jpg'']"
  by (simp_all add: Join_def cleanStep_def)

lemma keeps_addShow: "keeps (sameBelow (getSeasonDir l ep)) (addShow l ep)"
proof -
  let ?d = "getShowDir l ep"
  let ?s = "''Season '' @ itoa (Season ep)"
  let ?rest = "andThen (case ep_Show ep of
              Some s \<Rightarrow> ret s
            | None \<Rightarrow>
                (case GetDetails l (NewShowFromEpisode ep) of
                   (FetchOk, s) \<Rightarrow> ret s
                 | (FetchFailed, s) \<Rightarrow> andThen (logf Error ''details'') (\<lambda>_. ret s)
                 | (FetchFatal, s) \<Rightarrow>
                     andThen (logf Error ''details'') (\<lambda>_. fail ErrFatalDetails))) (\<lambda>s.
         andThen (mkdirIfAbsent ?d) (\<lambda>_.
         andThen (writeShowNFO (showNFOPath l ?d) s) (\<lambda>_.
         if show_Fanart s = [] \<or> show_Banner s = [] \<or> show_Poster s = []
         then fail ErrMissingShowImageURL
         else
           andThen (download (show_Fanart s) (Join ?d ''fanart.jpg'')) (\<lambda>_.
           andThen (download (show_Poster s) (Join ?d ''poster.jpg'')) (\<lambda>_.
           download (show_Banner s) (Join ?d ''banner.jpg''))))))"
  have g: "keeps (sameBelow (?d @ [?s])) (case ep_Show ep of
              Some s \<Rightarrow> ret s
            | None \<Rightarrow>
                (case GetDetails l (NewShowFromEpisode ep) of
                   (FetchOk, s) \<Rightarrow> ret s
                 | (FetchFailed, s) \<Rightarrow> andThen (logf Error ''details'') (\<lambda>_. ret s)
                 | (FetchFatal, s) \<Rightarrow>
                     andThen (logf Error ''details'') (\<lambda>_. fail ErrFatalDetails)))"
    by (auto intro!: keeps_andThen split: option.splits prod.splits fetch.splits)
  have r: "keeps (sameBelow (?d @ [?s])) ?rest"
    unfolding writeShowNFO_def showNFOPath_def join_name
    by (intro keeps_andThen g keeps_if keeps_mkdirIfAbsent_parent keeps_writeFile_aside
        keeps_download_aside keeps_fail) simp_all
  have "addShow l ep = (\<lambda>w. if exists (showNFOPath l ?d) w then ret () w else ?rest w)"
    by (simp add: addShow_def Let_def)
  with r show ?thesis
    by (auto simp: keeps_def ret_def getSeasonDir_showDir)
qed

lemma keeps_in_place_episode:
  "pathDir (ep_Path ep) = getSeasonDir l ep \<Longrightarrow>
   keeps (sameBelow (getSeasonDir l ep)) (installEpisode l ep)"
  unfolding installEpisode_def Let_def
  by (intro keeps_andThen keeps_addShow keeps_mkdirIfAbsent_self) simp

section \<open>Adding\<close>

subsection \<open>A file that is in its directory already\<close>

lemma supersedeMovie_unindexed:
  "movieIndex w (ImdbID m) = None \<Longrightarrow> supersedeMovie l m w = (Inr (), w)"
  by (simp add: supersedeMovie_def HasMovie_def MovieIndex_Has_def andThen_def ret_def)

lemma supersedeEpisode_unindexed:
  "HasEpisode (ShowImdbID ep) (Season ep) (Episode ep) w = (Inr False, w) \<Longrightarrow>
   supersedeEpisode l ep w = (Inr (), w)"
  by (simp add: supersedeEpisode_def HasShowEpisode_def andThen_def ret_def)

lemma andThen_succeeds:
  "andThen m f w = (Inr y, w') \<Longrightarrow> \<exists>x w1. m w = (Inr x, w1) \<and> f x w1 = (Inr y, w')"
  by (auto simp: andThen_def split: prod.splits sum.splits)

lemma addShow_sidecar_exists:
  "exists (showNFOPath l (getShowDir l ep)) w \<Longrightarrow> addShow l ep w = (Inr (), w)"
  by (simp add: addShow_def ret_def Let_def)

lemma NfoPath_dir: "p \<noteq> [] \<Longrightarrow> \<exists>x. NfoPath p = pathDir p @ [x]"
  by (simp add: NfoPath_def appendToName_def PathWithoutExt_def pathDir_def)

lemma path_dir_last: "p \<noteq> [] \<Longrightarrow> p = pathDir p @ [last p]"
  by (simp add: pathDir_def)




subsection \<open>Failing on a missing path or a missing image URL\<close>

lemma failsOnly_andThen:
  "failsOnly P m \<Longrightarrow> (\<And>x. failsOnly P (f x)) \<Longrightarrow> failsOnly P (andThen m f)"
  by (auto simp: failsOnly_def andThen_def split: prod.splits sum.splits)

lemma failsOnly_mono: "failsOnly P m \<Longrightarrow> (\<And>e. P e \<Longrightarrow> Q e) \<Longrightarrow> failsOnly Q m"
  by (auto simp: failsOnly_def)

lemma failsOnly_ret [simp]: "failsOnly P (ret x)"
  by (simp add: failsOnly_def ret_def)

lemma failsOnly_logf [simp]: "failsOnly P (logf lvl msg)"
  by (simp add: failsOnly_def logf_def)

lemma failsOnly_fail [simp]: "failsOnly P (fail e) = P e"
  by (simp add: failsOnly_def fail_def)

lemma failsOnly_if:
  "failsOnly P m \<Longrightarrow> failsOnly P n \<Longrightarrow> failsOnly P (if b then m else n)"
  by simp

lemma foreign_andThen: "foreign m \<Longrightarrow> (\<And>x. foreign (f x)) \<Longrightarrow> foreign (andThen m f)"
  unfolding foreign_def by (rule failsOnly_andThen)

lemma foreign_ret [simp]: "foreign (ret x)"
  by (simp add: foreign_def)

lemma foreign_logf [simp]: "foreign (logf lvl msg)"
  by (simp add: foreign_def)

lemma foreign_os [simp]:
  "foreign (RemoveAll p)" "foreign (Mkdir p)" "foreign (Rename p q)" "foreign (Symlink p q)"
  "foreign (writeFile p c)" "foreign (readFile p)" "foreign (mkdirIfAbsent p)"
  "foreign (download url p)"
  by (auto simp: foreign_def failsOnly_def libraryError_def os_defs io_defs
      split: if_splits option.splits node.splits)

lemma foreign_fail [simp]: "foreign (fail e) = (\<not> libraryError e)"
  by (simp add: foreign_def)

lemma libraryError_simps [simp]:
  "\<not> libraryError ErrParse" "\<not> libraryError ErrNotFound" "\<not> libraryError (ErrOS n)"
  "\<not> libraryError ErrFatalDetails" "libraryError ErrMissingMovieFilePath"
  "libraryError ErrMissingMovieImageURL" "libraryError ErrMissingShowImageURL"
  "libraryError ErrMissingShowEpisodeFilePath"
  by (simp_all add: libraryError_def)

lemma foreign_write_nfo [simp]:
  "foreign (writeMovieNFO p m)" "foreign (writeShowNFO p s)" "foreign (writeEpisodeNFO p ep)"
  by (simp_all add: writeMovieNFO_def writeShowNFO_def writeEpisodeNFO_def)

lemma foreign_readMovieNFO [simp]: "foreign (readMovieNFO p)"
  unfolding readMovieNFO_def
proof (rule foreign_andThen)
  fix c show "foreign (case c of MovieNFO m \<Rightarrow> ret m | _ \<Rightarrow> fail ErrParse)"
    by (cases c) simp_all
qed simp

lemma foreign_readShowNFO [simp]: "foreign (readShowNFO p)"
  unfolding readShowNFO_def
proof (rule foreign_andThen)
  fix c show "foreign (case c of ShowNFO m \<Rightarrow> ret m | _ \<Rightarrow> fail ErrParse)"
    by (cases c) simp_all
qed simp

lemma foreign_readEpisodeNFO [simp]: "foreign (readEpisodeNFO p)"
  unfolding readEpisodeNFO_def
proof (rule foreign_andThen)
  fix c show "foreign (case c of EpisodeNFO m \<Rightarrow> ret m | _ \<Rightarrow> fail ErrParse)"
    by (cases c) simp_all
qed simp

lemma foreign_index [simp]:
  "foreign (MovieIndex_Has i)" "foreign (MovieIndex_Add m)" "foreign (MovieIndex_Remove m)"
  "foreign (MoviePath i)" "foreign (HasEpisode i s e)" "foreign (ShowIndex_Add ep)"
  "foreign (EpisodePath i s e)" "foreign (RemoveEpisode ep)" "foreign (IsSeasonEmpty i s)"
  "foreign (IsShowEmpty i)" "foreign (RemoveSeason sh s)" "foreign (RemoveShow sh)"
  by (auto simp: foreign_def failsOnly_def libraryError_def index_defs io_defs
      split: if_splits option.splits)

lemma foreign_DeleteMovie [simp]: "foreign (DeleteMovie l m)"
  by (simp add: DeleteMovie_def Let_def foreign_andThen)

lemma foreign_GetMovie [simp]: "foreign (GetMovie l i)"
  by (simp add: GetMovie_def newMovieFromPath_def foreign_andThen)

lemma foreign_supersedeMovie [simp]: "foreign (supersedeMovie l m)"
  by (simp add: supersedeMovie_def HasMovie_def foreign_andThen)

lemma foreign_removeSidecars [simp]: "foreign (removeSidecars p exts)"
  by (induction exts) (simp_all add: foreign_andThen)

lemma foreign_DeleteShowEpisode [simp]: "foreign (DeleteShowEpisode l se)"
  by (simp add: DeleteShowEpisode_def cascadeSeason_def cascadeShow_def foreign_andThen)

lemma foreign_GetEpisode [simp]: "foreign (GetEpisode l i s e)"
  by (simp add: GetEpisode_def newEpisodeFromPath_def foreign_andThen)

lemma foreign_supersedeEpisode [simp]: "foreign (supersedeEpisode l ep)"
  by (simp add: supersedeEpisode_def HasShowEpisode_def foreign_andThen)


lemma lookup_put:
  "put p n t = Some t' \<Longrightarrow> lookup t' p = Some n"
proof (induction p n t arbitrary: t' rule: put.induct)
  case (2 c new es)
  then show ?case by (auto simp: AList.update_conv')
next
  case (3 c v va new es)
  then show ?case by (auto simp: AList.update_conv' split: option.splits)
qed simp_all

lemma writeFile_lookup:
  "writeFile p c w = (Inr u, w') \<Longrightarrow> lookup (root w') p = Some (File c)"
  by (auto simp: writeFile_def io_defs lookup_put split: if_splits option.splits node.splits)

lemma foreign_elim:
  assumes "andThen m f w = (Inl e, w')" and "foreign m" and "libraryError e"
  obtains x w1 where "m w = (Inr x, w1)" and "f x w1 = (Inl e, w')"
  using assms
  by (auto simp: foreign_def failsOnly_def andThen_def split: prod.splits sum.splits)

lemma foreign_clear_dir [simp]:
  "foreign (\<lambda>w. if exists p w then andThen (logf lvl msg) (\<lambda>_. RemoveAll p) w else ret () w)"
proof -
  have "foreign (andThen (logf lvl msg) (\<lambda>_. RemoveAll p))" by (simp add: foreign_andThen)
  then show ?thesis by (auto simp: foreign_def failsOnly_def ret_def)
qed

lemma foreign_symlink_step [simp]:
  "foreign (\<lambda>w. case Symlink a b w of (Inl e, w') \<Rightarrow> logf lvl msg w'
                                     | (Inr u, w') \<Rightarrow> (Inr u, w'))"
  by (auto simp: foreign_def failsOnly_def logf_def split: prod.splits sum.splits)

lemma foreign_downloads [simp]:
  "foreign (andThen (download a p) (\<lambda>_. download b q))"
  by (simp add: foreign_andThen)

lemma storeMovie_image_error:
  assumes "storeMovie l m sp w = (Inl ErrMissingMovieImageURL, w')"
  shows "movieIndex w' (ImdbID m) = Some (Join sp (pathBase (Path m))) \<and>
     lookup (root w') (NfoPath (Join sp (pathBase (Path m)))) = Some (File (MovieNFO (m\<lparr>Path := []\<rparr>)))"
proof -
  let ?new = "Join sp (pathBase (Path m))"
  let ?m = "m\<lparr>Path := ?new\<rparr>"
  note le = libraryError_simps(6)
  from assms[unfolded storeMovie_def Let_def]
  obtain w1 where s1: "andThen (Mkdir sp) (\<lambda>_.
     andThen (logf Debug ''Old path, new path'') (\<lambda>_.
     andThen (Rename (Path m) ?new) (\<lambda>_.
     andThen (\<lambda>w. case Symlink (Path ?m) (Path m) w of
                    (Inl e, w') \<Rightarrow> logf Warn ''Error while making symlink'' w'
                  | (Inr u, w') \<Rightarrow> (Inr u, w')) (\<lambda>_.
     andThen (writeMovieNFO (NfoPath (Path ?m)) ?m) (\<lambda>_.
     andThen (MovieIndex_Add ?m) (\<lambda>_.
     if Fanart ?m = [] \<or> Thumb ?m = [] then fail ErrMissingMovieImageURL
     else
       andThen (download (Fanart ?m) (MovieFanartPath ?m)) (\<lambda>_.
       download (Thumb ?m) (MovieThumbPath ?m)))))))) w1 = (Inl ErrMissingMovieImageURL, w')"
    by (rule foreign_elim[OF _ foreign_clear_dir le])
  from s1 obtain w2 where s2: "andThen (logf Debug ''Old path, new path'') (\<lambda>_.
     andThen (Rename (Path m) ?new) (\<lambda>_.
     andThen (\<lambda>w. case Symlink (Path ?m) (Path m) w of
                    (Inl e, w') \<Rightarrow> logf Warn ''Error while making symlink'' w'
                  | (Inr u, w') \<Rightarrow> (Inr u, w')) (\<lambda>_.
     andThen (writeMovieNFO (NfoPath (Path ?m)) ?m) (\<lambda>_.
     andThen (MovieIndex_Add ?m) (\<lambda>_.
     if Fanart ?m = [] \<or> Thumb ?m = [] then fail ErrMissingMovieImageURL
     else
       andThen (download (Fanart ?m) (MovieFanartPath ?m)) (\<lambda>_.
       download (Thumb ?m) (MovieThumbPath ?m))))))) w2 = (Inl ErrMissingMovieImageURL, w')"
    by (rule foreign_elim[OF _ foreign_os(2) le])
  from s2 obtain w3 where s3: "andThen (Rename (Path m) ?new) (\<lambda>_.
     andThen (\<lambda>w. case Symlink (Path ?m) (Path m) w of
                    (Inl e, w') \<Rightarrow> logf Warn ''Error while making symlink'' w'
                  | (Inr u, w') \<Rightarrow> (Inr u, w')) (\<lambda>_.
     andThen (writeMovieNFO (NfoPath (Path ?m)) ?m) (\<lambda>_.
     andThen (MovieIndex_Add ?m) (\<lambda>_.
     if Fanart ?m = [] \<or> Thumb ?m = [] then fail ErrMissingMovieImageURL
     else
       andThen (download (Fanart ?m) (MovieFanartPath ?m)) (\<lambda>_.
       download (Thumb ?m) (MovieThumbPath ?m)))))) w3 = (Inl ErrMissingMovieImageURL, w')"
    by (rule foreign_elim[OF _ foreign_logf le])
  from s3 obtain w4 where s4: "
     andThen (\<lambda>w. case Symlink (Path ?m) (Path m) w of
                    (Inl e, w') \<Rightarrow> logf Warn ''Error while making symlink'' w'
                  | (Inr u, w') \<Rightarrow> (Inr u, w')) (\<lambda>_.
     andThen (writeMovieNFO (NfoPath (Path ?m)) ?m) (\<lambda>_.
     andThen (MovieIndex_Add ?m) (\<lambda>_.
     if Fanart ?m = [] \<or> Thumb ?m = [] then fail ErrMissingMovieImageURL
     else
       andThen (download (Fanart ?m) (MovieFanartPath ?m)) (\<lambda>_.
       download (Thumb ?m) (MovieThumbPath ?m))))) w4 = (Inl ErrMissingMovieImageURL, w')"
    by (rule foreign_elim[OF _ foreign_os(3) le])
  from s4 obtain w5 where s5: "
     andThen (writeMovieNFO (NfoPath (Path ?m)) ?m) (\<lambda>_.
     andThen (MovieIndex_Add ?m) (\<lambda>_.
     if Fanart ?m = [] \<or> Thumb ?m = [] then fail ErrMissingMovieImageURL
     else
       andThen (download (Fanart ?m) (MovieFanartPath ?m)) (\<lambda>_.
       download (Thumb ?m) (MovieThumbPath ?m)))) w5 = (Inl ErrMissingMovieImageURL, w')"
    by (rule foreign_elim[OF _ foreign_symlink_step le])
  from s5 obtain u w6 where wr: "writeMovieNFO (NfoPath (Path ?m)) ?m w5 = (Inr u, w6)"
    and s6: "andThen (MovieIndex_Add ?m) (\<lambda>_.
     if Fanart ?m = [] \<or> Thumb ?m = [] then fail ErrMissingMovieImageURL
     else
       andThen (download (Fanart ?m) (MovieFanartPath ?m)) (\<lambda>_.
       download (Thumb ?m) (MovieThumbPath ?m))) w6 = (Inl ErrMissingMovieImageURL, w')"
    by (rule foreign_elim[OF _ foreign_write_nfo(1) le])
  from wr have nfo: "lookup (root w6) (NfoPath ?new) = Some (File (MovieNFO (m\<lparr>Path := []\<rparr>)))"
    using writeFile_lookup[of "NfoPath ?new" "MovieNFO (m\<lparr>Path := []\<rparr>)" w5 u w6]
    by (simp add: writeMovieNFO_def)
  let ?w7 = "w6\<lparr>movieIndex := (movieIndex w6)(ImdbID m \<mapsto> ?new)\<rparr>"
  from s6 have s7: "(if Fanart ?m = [] \<or> Thumb ?m = [] then fail ErrMissingMovieImageURL
     else
       andThen (download (Fanart ?m) (MovieFanartPath ?m)) (\<lambda>_.
       download (Thumb ?m) (MovieThumbPath ?m))) ?w7 = (Inl ErrMissingMovieImageURL, w')"
    by (simp add: andThen_def MovieIndex_Add_def)
  have "w' = ?w7"
  proof (cases "Fanart ?m = [] \<or> Thumb ?m = []")
    case True
    with s7 show ?thesis by (simp add: fail_def)
  next
    case False
    with s7 have "andThen (download (Fanart ?m) (MovieFanartPath ?m)) (\<lambda>_.
       download (Thumb ?m) (MovieThumbPath ?m)) ?w7 = (Inl ErrMissingMovieImageURL, w')"
      by simp
    from foreign_downloads[unfolded foreign_def failsOnly_def, rule_format, OF this] le
    show ?thesis by simp
  qed
  with nfo show ?thesis by simp
qed


lemma andThen_fails:
  "andThen m f w = (Inl e, w') \<Longrightarrow>
   m w = (Inl e, w') \<or> (\<exists>x w1. m w = (Inr x, w1) \<and> f x w1 = (Inl e, w'))"
  by (auto simp: andThen_def split: prod.splits sum.splits)

lemma foreign_never: "foreign m \<Longrightarrow> libraryError e0 \<Longrightarrow> failsOnly (\<lambda>e. e \<noteq> e0) m"
  by (auto simp: foreign_def failsOnly_def)

lemma failsOnly_failI: "P e \<Longrightarrow> failsOnly P (fail e)"
  by simp

lemma foreign_contra: "foreign m \<Longrightarrow> m w = (Inl e, w') \<Longrightarrow> libraryError e \<Longrightarrow> False"
  by (auto simp: foreign_def failsOnly_def)

lemma never_storeMovie:
  "e0 \<noteq> ErrMissingMovieImageURL \<Longrightarrow> libraryError e0 \<Longrightarrow>
   failsOnly (\<lambda>e. e \<noteq> e0) (storeMovie l m sp)"
  unfolding storeMovie_def Let_def
  by (intro failsOnly_andThen failsOnly_if failsOnly_failI foreign_never) simp_all

lemma never_installMovie:
  "e0 \<noteq> ErrMissingMovieImageURL \<Longrightarrow> libraryError e0 \<Longrightarrow>
   failsOnly (\<lambda>e. e \<noteq> e0) (installMovie l m)"
  by (simp add: installMovie_def Let_def never_storeMovie)

lemma foreign_storeEpisode [simp]: "foreign (storeEpisode l ep sd)"
  by (simp add: storeEpisode_def Let_def foreign_andThen)

lemma foreign_getShow:
  "foreign (case ep_Show ep of
              Some s \<Rightarrow> ret s
            | None \<Rightarrow>
                (case GetDetails l (NewShowFromEpisode ep) of
                   (FetchOk, s) \<Rightarrow> ret s
                 | (FetchFailed, s) \<Rightarrow> andThen (logf Error ''details'') (\<lambda>_. ret s)
                 | (FetchFatal, s) \<Rightarrow>
                     andThen (logf Error ''details'') (\<lambda>_. fail ErrFatalDetails)))"
  by (auto simp: foreign_andThen split: option.splits prod.splits fetch.splits)

lemma foreign_show_downloads [simp]:
  "foreign (andThen (download a p) (\<lambda>_. andThen (download b q) (\<lambda>_. download c r)))"
  by (simp add: foreign_andThen)

lemma never_addShow:
  assumes "e0 \<noteq> ErrMissingShowImageURL" and "libraryError e0"
  shows "failsOnly (\<lambda>e. e \<noteq> e0) (addShow l ep)"
proof -
  let ?dir = "getShowDir l ep"
  let ?nfo = "showNFOPath l ?dir"
  let ?rest = "andThen (case ep_Show ep of
              Some s \<Rightarrow> ret s
            | None \<Rightarrow>
                (case GetDetails l (NewShowFromEpisode ep) of
                   (FetchOk, s) \<Rightarrow> ret s
                 | (FetchFailed, s) \<Rightarrow> andThen (logf Error ''details'') (\<lambda>_. ret s)
                 | (FetchFatal, s) \<Rightarrow>
                     andThen (logf Error ''details'') (\<lambda>_. fail ErrFatalDetails))) (\<lambda>s.
         andThen (mkdirIfAbsent ?dir) (\<lambda>_.
         andThen (writeShowNFO ?nfo s) (\<lambda>_.
         if show_Fanart s = [] \<or> show_Banner s = [] \<or> show_Poster s = []
         then fail ErrMissingShowImageURL
         else
           andThen (download (show_Fanart s) (Join ?dir ''fanart.jpg'')) (\<lambda>_.
           andThen (download (show_Poster s) (Join ?dir ''poster.jpg'')) (\<lambda>_.
           download (show_Banner s) (Join ?dir ''banner.jpg''))))))"
  have g: "failsOnly (\<lambda>e. e \<noteq> e0) (case ep_Show ep of
              Some s \<Rightarrow> ret s
            | None \<Rightarrow>
                (case GetDetails l (NewShowFromEpisode ep) of
                   (FetchOk, s) \<Rightarrow> ret s
                 | (FetchFailed, s) \<Rightarrow> andThen (logf Error ''details'') (\<lambda>_. ret s)
                 | (FetchFatal, s) \<Rightarrow>
                     andThen (logf Error ''details'') (\<lambda>_. fail ErrFatalDetails)))"
    using assms(2) by (intro foreign_never foreign_getShow)
  have r: "failsOnly (\<lambda>e. e \<noteq> e0) ?rest"
    using assms
    by (intro failsOnly_andThen g failsOnly_if failsOnly_failI foreign_never) simp_all
  have "addShow l ep = (\<lambda>w. if exists ?nfo w then ret () w else ?rest w)"
    by (simp add: addShow_def Let_def)
  with r show ?thesis by (auto simp: failsOnly_def ret_def)
qed

lemma never_installEpisode:
  assumes "e0 \<noteq> ErrMissingShowImageURL" and "libraryError e0"
  shows "failsOnly (\<lambda>e. e \<noteq> e0) (installEpisode l ep)"
  unfolding installEpisode_def Let_def
  using assms
  by (intro failsOnly_andThen never_addShow failsOnly_if foreign_never) simp_all

lemma addShow_image_error:
  assumes "addShow l ep w = (Inl ErrMissingShowImageURL, w')"
  shows "\<exists>s. lookup (root w') (showNFOPath l (getShowDir l ep)) = Some (File (ShowNFO s))"
proof -
  let ?dir = "getShowDir l ep"
  let ?nfo = "showNFOPath l ?dir"
  note le = libraryError_simps(7)
  have ne: "\<not> exists ?nfo w"
    using assms by (auto simp: addShow_def Let_def ret_def)
  with assms have "andThen (case ep_Show ep of
              Some s \<Rightarrow> ret s
            | None \<Rightarrow>
                (case GetDetails l (NewShowFromEpisode ep) of
                   (FetchOk, s) \<Rightarrow> ret s
                 | (FetchFailed, s) \<Rightarrow> andThen (logf Error ''details'') (\<lambda>_. ret s)
                 | (FetchFatal, s) \<Rightarrow>
                     andThen (logf Error ''details'') (\<lambda>_. fail ErrFatalDetails))) (\<lambda>s.
         andThen (mkdirIfAbsent ?dir) (\<lambda>_.
         andThen (writeShowNFO ?nfo s) (\<lambda>_.
         if show_Fanart s = [] \<or> show_Banner s = [] \<or> show_Poster s = []
         then fail ErrMissingShowImageURL
         else
           andThen (download (show_Fanart s) (Join ?dir ''fanart.jpg'')) (\<lambda>_.
           andThen (download (show_Poster s) (Join ?dir ''poster.jpg'')) (\<lambda>_.
           download (show_Banner s) (Join ?dir ''banner.jpg'')))))) w
       = (Inl ErrMissingShowImageURL, w')"
    by (simp add: addShow_def Let_def)
  then obtain s w1 where s1: "andThen (mkdirIfAbsent ?dir) (\<lambda>_.
         andThen (writeShowNFO ?nfo s) (\<lambda>_.
         if show_Fanart s = [] \<or> show_Banner s = [] \<or> show_Poster s = []
         then fail ErrMissingShowImageURL
         else
           andThen (download (show_Fanart s) (Join ?dir ''fanart.jpg'')) (\<lambda>_.
           andThen (download (show_Poster s) (Join ?dir ''poster.jpg'')) (\<lambda>_.
           download (show_Banner s) (Join ?dir ''banner.jpg''))))) w1
       = (Inl ErrMissingShowImageURL, w')"
    by (rule foreign_elim[OF _ foreign_getShow le])
  from s1 obtain w2 where s2: "andThen (writeShowNFO ?nfo s) (\<lambda>_.
         if show_Fanart s = [] \<or> show_Banner s = [] \<or> show_Poster s = []
         then fail ErrMissingShowImageURL
         else
           andThen (download (show_Fanart s) (Join ?dir ''fanart.jpg'')) (\<lambda>_.
           andThen (download (show_Poster s) (Join ?dir ''poster.jpg'')) (\<lambda>_.
           download (show_Banner s) (Join ?dir ''banner.jpg'')))) w2
       = (Inl ErrMissingShowImageURL, w')"
    by (rule foreign_elim[OF _ foreign_os(7) le])
  from s2 obtain u w3 where wr: "writeShowNFO ?nfo s w2 = (Inr u, w3)"
    and s3: "(if show_Fanart s = [] \<or> show_Banner s = [] \<or> show_Poster s = []
         then fail ErrMissingShowImageURL
         else
           andThen (download (show_Fanart s) (Join ?dir ''fanart.jpg'')) (\<lambda>_.
           andThen (download (show_Poster s) (Join ?dir ''poster.jpg'')) (\<lambda>_.
           download (show_Banner s) (Join ?dir ''banner.jpg'')))) w3
       = (Inl ErrMissingShowImageURL, w')"
    by (rule foreign_elim[OF _ foreign_write_nfo(2) le])
  from wr have nfo: "lookup (root w3) ?nfo = Some (File (ShowNFO s))"
    using writeFile_lookup[of ?nfo "ShowNFO s" w2 u w3] by (simp add: writeShowNFO_def)
  have "w' = w3"
  proof (cases "show_Fanart s = [] \<or> show_Banner s = [] \<or> show_Poster s = []")
    case True
    with s3 show ?thesis by (simp add: fail_def)
  next
    case False
    with s3 have "andThen (download (show_Fanart s) (Join ?dir ''fanart.jpg'')) (\<lambda>_.
           andThen (download (show_Poster s) (Join ?dir ''poster.jpg'')) (\<lambda>_.
           download (show_Banner s) (Join ?dir ''banner.jpg''))) w3
       = (Inl ErrMissingShowImageURL, w')" by simp
    from foreign_contra[OF foreign_show_downloads this le] show ?thesis ..
  qed
  with nfo show ?thesis by blast
qed




subsection \<open>An identifier that is in the index already\<close>

lemma RemoveAll_success:
  "RemoveAll p w = (Inr u, w') \<Longrightarrow> p \<noteq> [] \<and> w' = w\<lparr>root := remove p (root w)\<rparr>"
  by (auto simp: RemoveAll_def io_defs split: if_splits)

lemma GetMovie_result:
  "movieIndex w i = Some p \<Longrightarrow> GetMovie l i w = (Inr old, w1) \<Longrightarrow> Path old = p \<and> w1 = w"
  by (auto simp: GetMovie_def MoviePath_def newMovieFromPath_def readMovieNFO_def readFile_def
      io_defs split: if_splits option.splits node.splits content.splits)

lemma GetMovie_fails:
  "GetMovie l i w = (Inl e, w1) \<Longrightarrow> w1 = w"
  by (auto simp: GetMovie_def MoviePath_def newMovieFromPath_def readMovieNFO_def readFile_def
      io_defs split: if_splits option.splits node.splits content.splits)

lemma DeleteMovie_success:
  assumes "DeleteMovie l m w = (Inr u, w')"
  shows "(\<forall>q. lookup (root w') (pathDir (Path m) @ q) = None) \<and> movieIndex w' (ImdbID m) = None"
proof -
  from assms have "andThen (logf Info ''Removing Movie'') (\<lambda>_.
      andThen (RemoveAll (pathDir (Path m))) (\<lambda>_. MovieIndex_Remove m)) w = (Inr u, w')"
    by (simp add: DeleteMovie_def Let_def)
  from andThen_succeeds[OF this] obtain w1 where
    a: "logf Info ''Removing Movie'' w = (Inr (), w1)" and
    b: "andThen (RemoveAll (pathDir (Path m))) (\<lambda>_. MovieIndex_Remove m) w1 = (Inr u, w')"
    by auto
  from andThen_succeeds[OF b] obtain w2 where
    c: "RemoveAll (pathDir (Path m)) w1 = (Inr (), w2)" and
    d: "MovieIndex_Remove m w2 = (Inr u, w')"
    by auto
  from RemoveAll_success[OF c] have e: "pathDir (Path m) \<noteq> []"
    "w2 = w1\<lparr>root := remove (pathDir (Path m)) (root w1)\<rparr>" by simp_all
  from d have f: "root w' = root w2" "movieIndex w' (ImdbID m) = None"
    by (auto simp: MovieIndex_Remove_def fail_def split: if_splits)
  from e f show ?thesis by (simp add: lookup_remove_below)
qed

lemma GetEpisode_result:
  "EpisodePath i sn en w = (Inr p, w0) \<Longrightarrow> GetEpisode l i sn en w = (Inr old, w1) \<Longrightarrow>
   ep_Path old = p \<and> w1 = w"
  by (auto simp: GetEpisode_def EpisodePath_def newEpisodeFromPath_def readEpisodeNFO_def
      readFile_def io_defs split: if_splits option.splits node.splits content.splits)

lemma GetEpisode_fails:
  "GetEpisode l i sn en w = (Inl e, w1) \<Longrightarrow> w1 = w"
  by (auto simp: GetEpisode_def EpisodePath_def newEpisodeFromPath_def readEpisodeNFO_def
      readFile_def io_defs split: if_splits option.splits node.splits content.splits)

lemma removeSidecars_success:
  "removeSidecars pw exts w = (Inr u, w') \<Longrightarrow>
   showIndex w' = showIndex w \<and> (\<forall>q. lookup (root w) q = None \<longrightarrow> lookup (root w') q = None)"
proof (induction exts arbitrary: w)
  case Nil
  then show ?case by (simp add: ret_def)
next
  case (Cons ext exts)
  from Cons.prems have "andThen (logf Debug ''Removing'') (\<lambda>_.
     andThen (RemoveAll (fileToDelete pw ext)) (\<lambda>_. removeSidecars pw exts)) w = (Inr u, w')"
    by simp
  from andThen_succeeds[OF this] obtain w1 where
    a: "logf Debug ''Removing'' w = (Inr (), w1)" and
    b: "andThen (RemoveAll (fileToDelete pw ext)) (\<lambda>_. removeSidecars pw exts) w1 = (Inr u, w')"
    by auto
  from andThen_succeeds[OF b] obtain w2 where
    c: "RemoveAll (fileToDelete pw ext) w1 = (Inr (), w2)" and
    d: "removeSidecars pw exts w2 = (Inr u, w')"
    by auto
  from a have a': "showIndex w1 = showIndex w" "root w1 = root w" by (auto simp: logf_def)
  from RemoveAll_success[OF c] have c': "showIndex w2 = showIndex w1"
    "root w2 = remove (fileToDelete pw ext) (root w1)" by simp_all
  from Cons.IH[OF d] a' c' show ?case by (simp add: lookup_remove_None)
qed

lemma RemoveEpisode_success:
  "RemoveEpisode se w = (Inr u, w') \<Longrightarrow>
   root w' = root w \<and> fst (HasEpisode (ShowImdbID se) (Season se) (Episode se) w') = Inr False"
  by (auto simp: RemoveEpisode_def HasEpisode_def io_defs split: option.splits if_splits)

lemma cascadeSeason_success:
  "cascadeSeason l se w = (Inr u, w') \<Longrightarrow>
   (\<forall>q. lookup (root w) q = None \<longrightarrow> lookup (root w') q = None) \<and>
   (fst (HasEpisode i sn en w) = Inr False \<longrightarrow> fst (HasEpisode i sn en w') = Inr False)"
  by (auto simp: cascadeSeason_def IsSeasonEmpty_def RemoveSeason_def RemoveAll_def HasEpisode_def
      showOfID_def io_defs lookup_remove_None split: option.splits if_splits)

lemma cascadeShow_success:
  "cascadeShow l se w = (Inr u, w') \<Longrightarrow>
   (\<forall>q. lookup (root w) q = None \<longrightarrow> lookup (root w') q = None) \<and>
   (fst (HasEpisode i sn en w) = Inr False \<longrightarrow> fst (HasEpisode i sn en w') = Inr False)"
  by (auto simp: cascadeShow_def IsShowEmpty_def RemoveShow_def RemoveAll_def HasEpisode_def
      showOfID_def io_defs lookup_remove_None split: option.splits if_splits)

lemma HasEpisode_world: "snd (HasEpisode i sn en w) = w"
  by (simp add: HasEpisode_def ret_def)

lemma DeleteShowEpisode_success:
  assumes "DeleteShowEpisode l se w = (Inr u, w')"
  shows "(ep_Path se \<noteq> [] \<longrightarrow> (\<forall>q. lookup (root w') (ep_Path se @ q) = None)) \<and>
     HasEpisode (ShowImdbID se) (Season se) (Episode se) w' = (Inr False, w')"
proof -
  from andThen_succeeds[OF assms[unfolded DeleteShowEpisode_def]] obtain w1 where
    a: "logf Info ''Removing ShowEpisode'' w = (Inr (), w1)" and
    b: "andThen (if ep_Path se = [] then ret () else RemoveAll (ep_Path se)) (\<lambda>_.
     andThen (removeSidecars (PathWithoutExt (ep_Path se)) [''nfo'', ''srt'']) (\<lambda>_.
     andThen (RemoveEpisode se) (\<lambda>_.
     andThen (cascadeSeason l se) (\<lambda>_.
     cascadeShow l se)))) w1 = (Inr u, w')"
    by auto
  from andThen_succeeds[OF b] obtain w2 where
    c: "(if ep_Path se = [] then ret () else RemoveAll (ep_Path se)) w1 = (Inr (), w2)" and
    d: "andThen (removeSidecars (PathWithoutExt (ep_Path se)) [''nfo'', ''srt'']) (\<lambda>_.
     andThen (RemoveEpisode se) (\<lambda>_.
     andThen (cascadeSeason l se) (\<lambda>_.
     cascadeShow l se))) w2 = (Inr u, w')"
    by auto
  from andThen_succeeds[OF d] obtain w3 where
    e: "removeSidecars (PathWithoutExt (ep_Path se)) [''nfo'', ''srt''] w2 = (Inr (), w3)" and
    f: "andThen (RemoveEpisode se) (\<lambda>_.
     andThen (cascadeSeason l se) (\<lambda>_.
     cascadeShow l se)) w3 = (Inr u, w')"
    by auto
  from andThen_succeeds[OF f] obtain w4 where
    g: "RemoveEpisode se w3 = (Inr (), w4)" and
    h: "andThen (cascadeSeason l se) (\<lambda>_. cascadeShow l se) w4 = (Inr u, w')"
    by auto
  from andThen_succeeds[OF h] obtain w5 where
    i: "cascadeSeason l se w4 = (Inr (), w5)" and
    j: "cascadeShow l se w5 = (Inr u, w')"
    by auto
  have gone2: "lookup (root w2) (ep_Path se @ q) = None" if ne: "ep_Path se \<noteq> []" for q
  proof -
    from c ne have "RemoveAll (ep_Path se) w1 = (Inr (), w2)" by simp
    from RemoveAll_success[OF this] show ?thesis by (simp add: lookup_remove_below)
  qed
  have gone: "lookup (root w') (ep_Path se @ q) = None" if ne: "ep_Path se \<noteq> []" for q
    using gone2[OF ne, of q] removeSidecars_success[OF e] RemoveEpisode_success[OF g]
      cascadeSeason_success[OF i] cascadeShow_success[OF j]
    by simp
  have "fst (HasEpisode (ShowImdbID se) (Season se) (Episode se) w') = Inr False"
    using RemoveEpisode_success[OF g] cascadeSeason_success[OF i] cascadeShow_success[OF j]
    by blast
  then have "HasEpisode (ShowImdbID se) (Season se) (Episode se) w' = (Inr False, w')"
    using HasEpisode_world[of "ShowImdbID se" "Season se" "Episode se" w']
    by (metis prod.collapse)
  with gone show ?thesis by blast
qed

lemma EpisodePath_indexed:
  "EpisodePath i sn en w = (Inr p, w0) \<Longrightarrow> HasEpisode i sn en w = (Inr True, w)"
  by (auto simp: EpisodePath_def HasEpisode_def io_defs split: option.splits)

lemma HasEpisode_showIndex:
  "showIndex w' = showIndex w \<Longrightarrow> fst (HasEpisode i sn en w') = fst (HasEpisode i sn en w)"
  by (simp add: HasEpisode_def ret_def)

text \<open>
  Claim C4 does not hold of the code when the file that is ingested is the indexed copy
  itself, in its canonical directory. \<open>AddMovie\<close> finds the identifier in the index,
  fetches the indexed movie and deletes it, which removes the directory that holds the file
  and the index entry; then it finds the file in the destination folder already, logs
  that, and returns success. So, when the sidecar of the indexed movie can be read and the directory
  can be removed, \<open>AddMovie\<close> succeeds, the directory is removed from the tree, nothing is
  left at the path of the file, and the movie has no entry in the index: the prior copy is
  deleted and no copy is installed. \<open>AddShowEpisode\<close> does the same to an episode: when it
  succeeds, nothing is left at the path of the episode's file and the episode is not in the
  index.
\<close>

theorem duplicate_in_place_ingest_deletes:
  "(Path m \<noteq> [] \<and> pathDir (Path m) = getMovieDir l m \<and>
    movieIndex w (ImdbID m) = Some (Path m) \<and>
    GetMovie l (ImdbID m) w = (Inr old, w) \<and> ImdbID old = ImdbID m \<and>
    removable w (pathDir (Path m)) \<longrightarrow>
      fst (AddMovie l m w) = Inr () \<and>
      root (snd (AddMovie l m w)) = remove (pathDir (Path m)) (root w) \<and>
      lookup (root (snd (AddMovie l m w))) (Path m) = None \<and>
      movieIndex (snd (AddMovie l m w)) = (movieIndex w)(ImdbID m := None)) \<and>
   (ep_Path ep \<noteq> [] \<and> pathDir (ep_Path ep) = getSeasonDir l ep \<and>
    EpisodePath (ShowImdbID ep) (Season ep) (Episode ep) w = (Inr (ep_Path ep), w) \<and>
    GetEpisode l (ShowImdbID ep) (Season ep) (Episode ep) w = (Inr old', w) \<and>
    ShowImdbID old' = ShowImdbID ep \<and> Season old' = Season ep \<and> Episode old' = Episode ep \<and>
    fst (AddShowEpisode l ep w) = Inr () \<longrightarrow>
      lookup (root (snd (AddShowEpisode l ep w))) (ep_Path ep) = None \<and>
      fst (HasEpisode (ShowImdbID ep) (Season ep) (Episode ep) (snd (AddShowEpisode l ep w)))
        = Inr False)"
proof (rule conjI; rule impI; elim conjE)
  let ?d = "pathDir (Path m)"
  assume ne: "Path m \<noteq> []" and ip: "?d = getMovieDir l m"
    and ix: "movieIndex w (ImdbID m) = Some (Path m)"
    and g: "GetMovie l (ImdbID m) w = (Inr old, w)" and i: "ImdbID old = ImdbID m"
    and r: "removable w ?d"
  from GetMovie_result[OF ix g] have po: "Path old = Path m" by simp
  from r have "removable (w\<lparr>logs := logs w @ [(Info, ''Removing Movie'')]\<rparr>) ?d"
    by (simp add: removable_def)
  note ra = RemoveAll_removable[OF this]
  have del: "DeleteMovie l old w =
      (Inr (), w\<lparr>logs := logs w @ [(Info, ''Removing Movie'')],
                 root := remove ?d (root w),
                 movieIndex := (movieIndex w)(ImdbID m := None)\<rparr>)"
    using ix i po
    by (simp add: DeleteMovie_def andThen_def logf_def ra MovieIndex_Remove_def)
  have add: "AddMovie l m w =
      (Inr (), w\<lparr>logs := logs w @ [(Info, ''Removing Movie''),
                     (Debug, ''Movie already in the destination folder'')],
                 root := remove ?d (root w),
                 movieIndex := (movieIndex w)(ImdbID m := None)\<rparr>)"
    using ne ix ip g del
    by (simp add: AddMovie_def supersedeMovie_def HasMovie_def MovieIndex_Has_def andThen_def
        ret_def installMovie_def logf_def)
  from r have dne: "?d \<noteq> []" by (simp add: removable_def)
  from ne have "Path m = ?d @ [last (Path m)]" by (simp add: pathDir_def)
  with lookup_remove_below[OF dne, of "root w" "[last (Path m)]"]
  have gone: "lookup (remove ?d (root w)) (Path m) = None" by simp
  show "fst (AddMovie l m w) = Inr () \<and>
      root (snd (AddMovie l m w)) = remove ?d (root w) \<and>
      lookup (root (snd (AddMovie l m w))) (Path m) = None \<and>
      movieIndex (snd (AddMovie l m w)) = (movieIndex w)(ImdbID m := None)"
    by (simp add: add gone)
next
  let ?sd = "getSeasonDir l ep"
  let ?w' = "snd (AddShowEpisode l ep w)"
  assume ne: "ep_Path ep \<noteq> []" and ip: "pathDir (ep_Path ep) = ?sd"
    and ix: "EpisodePath (ShowImdbID ep) (Season ep) (Episode ep) w = (Inr (ep_Path ep), w)"
    and g: "GetEpisode l (ShowImdbID ep) (Season ep) (Episode ep) w = (Inr old', w)"
    and i: "ShowImdbID old' = ShowImdbID ep" "Season old' = Season ep"
      "Episode old' = Episode ep"
    and ok: "fst (AddShowEpisode l ep w) = Inr ()"
  from GetEpisode_result[OF ix g] have po: "ep_Path old' = ep_Path ep" by simp
  from ok have "AddShowEpisode l ep w = (Inr (), ?w')" by (metis prod.collapse)
  with ne have "andThen (supersedeEpisode l ep) (\<lambda>_. installEpisode l ep) w = (Inr (), ?w')"
    by (simp add: AddShowEpisode_def)
  from andThen_succeeds[OF this] obtain w1 where
    s: "supersedeEpisode l ep w = (Inr (), w1)" and
    inst: "installEpisode l ep w1 = (Inr (), ?w')"
    by auto
  from s EpisodePath_indexed[OF ix] g have del: "DeleteShowEpisode l old' w = (Inr (), w1)"
    by (simp add: supersedeEpisode_def HasShowEpisode_def andThen_def)
  from DeleteShowEpisode_success[OF del] ne po i
  have all1: "\<forall>q. lookup (root w1) (ep_Path ep @ q) = None"
    and un1: "HasEpisode (ShowImdbID ep) (Season ep) (Episode ep) w1 = (Inr False, w1)"
    by auto
  from all1[rule_format, of "[]"] have gone1: "lookup (root w1) (ep_Path ep) = None"
    by simp
  from keeps_in_place_episode[OF ip] inst have sb: "sameBelow ?sd w1 ?w'" by (rule keepsD)
  from path_dir_last[OF ne] ip have p: "ep_Path ep = ?sd @ [last (ep_Path ep)]" by simp
  from sb have "lookup (root ?w') (?sd @ last (ep_Path ep) # []) =
      lookup (root w1) (?sd @ last (ep_Path ep) # [])"
    unfolding sameBelow_def by blast
  with p gone1 have c1: "lookup (root ?w') (ep_Path ep) = None" by simp
  from sb have "showIndex ?w' = showIndex w1" by (simp add: sameBelow_def)
  from HasEpisode_showIndex[OF this] un1
  have c2: "fst (HasEpisode (ShowImdbID ep) (Season ep) (Episode ep) ?w') = Inr False"
    by simp
  from c1 c2 show "lookup (root ?w') (ep_Path ep) = None \<and>
      fst (HasEpisode (ShowImdbID ep) (Season ep) (Episode ep) ?w') = Inr False"
    by blast
qed

text \<open>
  The stored movie and the stored episode of the example disk, ingested again from where
  they are stored: both calls succeed, and the files that were there are gone and no longer
  indexed.
\<close>

theorem duplicate_in_place_ingest_deletes_witness:
  "Path exStoredMovie \<noteq> [] \<and>
   pathDir (Path exStoredMovie) = getMovieDir exLibrary exStoredMovie \<and>
   movieIndex exWorld (ImdbID exStoredMovie) = Some (Path exStoredMovie) \<and>
   lookup (root exWorld) (Path exStoredMovie) = Some (File Media) \<and>
   fst (AddMovie exLibrary exStoredMovie exWorld) = Inr () \<and>
   lookup (root (snd (AddMovie exLibrary exStoredMovie exWorld))) (Path exStoredMovie) = None \<and>
   movieIndex (snd (AddMovie exLibrary exStoredMovie exWorld)) (ImdbID exStoredMovie) = None \<and>
   ep_Path exAttachedEpisode \<noteq> [] \<and>
   pathDir (ep_Path exAttachedEpisode) = getSeasonDir exLibrary exAttachedEpisode \<and>
   lookup (root exWorld) (ep_Path exAttachedEpisode) = Some (File Media) \<and>
   fst (HasEpisode ''tt100'' 1 1 exWorld) = Inr True \<and>
   fst (AddShowEpisode exLibrary exAttachedEpisode exWorld) = Inr () \<and>
   lookup (root (snd (AddShowEpisode exLibrary exAttachedEpisode exWorld)))
     (ep_Path exAttachedEpisode) = None \<and>
   fst (HasEpisode ''tt100'' 1 1 (snd (AddShowEpisode exLibrary exAttachedEpisode exWorld)))
     = Inr False"
proof -
  have a: "Path exStoredMovie \<noteq> []"
    "pathDir (Path exStoredMovie) = getMovieDir exLibrary exStoredMovie"
    "movieIndex exWorld (ImdbID exStoredMovie) = Some (Path exStoredMovie)"
    "lookup (root exWorld) (Path exStoredMovie) = Some (File Media)"
    by (simp_all add: example_defs path_defs getMovieDir_def)
  have g: "GetMovie exLibrary (ImdbID exStoredMovie) exWorld = (Inr exStoredMovie, exWorld)"
    by (simp add: example_defs path_defs library_defs io_defs index_defs os_defs)
  have r: "removable exWorld (pathDir (Path exStoredMovie))"
    by (simp add: example_defs path_defs removable_def)
  note tm = duplicate_in_place_ingest_deletes
    [where m = exStoredMovie and l = exLibrary and w = exWorld and old = exStoredMovie]
  from tm a g r have m1: "fst (AddMovie exLibrary exStoredMovie exWorld) = Inr ()"
    by blast
  from tm a g r have m2:
    "lookup (root (snd (AddMovie exLibrary exStoredMovie exWorld))) (Path exStoredMovie) = None"
    by blast
  from tm a g r have "movieIndex (snd (AddMovie exLibrary exStoredMovie exWorld)) =
      (movieIndex exWorld)(ImdbID exStoredMovie := None)"
    by blast
  then have m3:
    "movieIndex (snd (AddMovie exLibrary exStoredMovie exWorld)) (ImdbID exStoredMovie) = None"
    by simp
  have b: "ep_Path exAttachedEpisode \<noteq> []"
    "pathDir (ep_Path exAttachedEpisode) = getSeasonDir exLibrary exAttachedEpisode"
    "lookup (root exWorld) (ep_Path exAttachedEpisode) = Some (File Media)"
    "fst (HasEpisode ''tt100'' 1 1 exWorld) = Inr True"
    by (simp_all add: example_defs path_defs getSeasonDir_def HasEpisode_def ret_def)
  have x: "EpisodePath (ShowImdbID exAttachedEpisode) (Season exAttachedEpisode)
      (Episode exAttachedEpisode) exWorld = (Inr (ep_Path exAttachedEpisode), exWorld)"
    by (simp add: example_defs EpisodePath_def ret_def)
  have ge: "GetEpisode exLibrary (ShowImdbID exAttachedEpisode) (Season exAttachedEpisode)
      (Episode exAttachedEpisode) exWorld = (Inr exStoredEpisode, exWorld)"
    by (simp add: example_defs path_defs library_defs io_defs index_defs os_defs)
  have ok: "fst (AddShowEpisode exLibrary exAttachedEpisode exWorld) = Inr ()"
    by (simp add: example_defs path_defs library_defs io_defs index_defs os_defs
        removeSidecars.simps fileToDelete_def)
  have ids: "ShowImdbID exStoredEpisode = ShowImdbID exAttachedEpisode"
    "Season exStoredEpisode = Season exAttachedEpisode"
    "Episode exStoredEpisode = Episode exAttachedEpisode"
    by (simp_all add: exAttachedEpisode_def)
  note te = duplicate_in_place_ingest_deletes
    [where ep = exAttachedEpisode and l = exLibrary and w = exWorld and old' = exStoredEpisode]
  from te b x ge ok ids have e1:
    "lookup (root (snd (AddShowEpisode exLibrary exAttachedEpisode exWorld)))
       (ep_Path exAttachedEpisode) = None"
    by blast
  from te b x ge ok ids have "fst (HasEpisode (ShowImdbID exAttachedEpisode)
      (Season exAttachedEpisode) (Episode exAttachedEpisode)
      (snd (AddShowEpisode exLibrary exAttachedEpisode exWorld))) = Inr False"
    by blast
  then have e2:
    "fst (HasEpisode ''tt100'' 1 1 (snd (AddShowEpisode exLibrary exAttachedEpisode exWorld)))
       = Inr False"
    by (simp add: exStoredEpisode_def exAttachedEpisode_def)
  show ?thesis
    by (intro conjI a m1 m2 m3 b ok e1 e2)
qed

section \<open>Rebuilding the indexes\<close>

subsection \<open>What a walk keeps and what it depends on\<close>

lemma walk_post:
  assumes fn: "\<And>p f e s. I s \<Longrightarrow> f \<noteq> None \<or> e \<noteq> None \<Longrightarrow>
      I (snd (fn p f e s)) \<and> G (fst (fn p f e s))"
    and nil: "G Nil"
  shows "I s \<Longrightarrow> I (snd (walk sys fn p n s)) \<and> G (fst (walk sys fn p n s))"
    and "I s \<Longrightarrow> I (snd (walkNames sys fn p es s)) \<and> G (fst (walkNames sys fn p es s))"
  using fn
proof (induction sys fn p n s and sys fn p es s rule: walk_walkNames.induct)
  case (1 sys fn p es s)
  let ?err = "if SysReadDir p \<in> set sys then Some (ErrOS EACCES) else None"
  obtain err1 s1 where f: "fn p (Some (Dir es)) ?err s = (err1, s1)"
    by (cases "fn p (Some (Dir es)) ?err s")
  have "I (snd (fn p (Some (Dir es)) ?err s)) \<and> G (fst (fn p (Some (Dir es)) ?err s))"
    using "1.prems"(1) by (intro "1.prems"(2)) simp_all
  with f have n: "I s1" "G err1" by simp_all
  show ?case
  proof (cases "?err \<noteq> None \<or> err1 \<noteq> Nil")
    case True
    with f n show ?thesis by (auto simp: Let_def)
  next
    case False
    with f have "walk sys fn p (Dir es) s = walkNames sys fn p es s1"
      by (auto simp: Let_def)
    moreover have "I (snd (walkNames sys fn p es s1)) \<and> G (fst (walkNames sys fn p es s1))"
      using False f n(1) by (intro "1.IH"[OF refl _ _ _ "1.prems"(2)]) (auto simp: Let_def)
    ultimately show ?thesis by simp
  qed
next
  case (2 sys fn p c s)
  from "2.prems"(2)[OF "2.prems"(1), of "Some (File c)" None p] show ?case by simp
next
  case (3 sys fn p t s)
  from "3.prems"(2)[OF "3.prems"(1), of "Some (Link t)" None p] show ?case by simp
next
  case (4 sys fn p s)
  then show ?case using nil by simp
next
  case (5 sys fn p name n rest s)
  show ?case
  proof (cases "SysLstat (p @ [name]) \<in> set sys")
    case True
    obtain err s1 where f: "fn (p @ [name]) None (Some (ErrOS EACCES)) s = (err, s1)"
      by (cases "fn (p @ [name]) None (Some (ErrOS EACCES)) s")
    have "I (snd (fn (p @ [name]) None (Some (ErrOS EACCES)) s)) \<and>
        G (fst (fn (p @ [name]) None (Some (ErrOS EACCES)) s))"
      using "5.prems"(1) by (intro "5.prems"(2)) simp_all
    with f have n: "I s1" "G err" by simp_all
    show ?thesis
    proof (cases "err \<noteq> Nil \<and> err \<noteq> SkipDir")
      case stop: True
      with True f n show ?thesis by (simp add: Let_def)
    next
      case go: False
      with True f have "walkNames sys fn p ((name, n) # rest) s = walkNames sys fn p rest s1"
        by (auto simp: Let_def)
      moreover have "I (snd (walkNames sys fn p rest s1)) \<and> G (fst (walkNames sys fn p rest s1))"
        using True f n(1) go
        by (intro "5.IH"(1)[OF refl _ _ _ _ "5.prems"(2)]) (auto simp: Let_def)
      ultimately show ?thesis by simp
    qed
  next
    case False
    obtain err s1 where f: "walk sys fn (p @ [name]) n s = (err, s1)"
      by (cases "walk sys fn (p @ [name]) n s")
    have "I (snd (walk sys fn (p @ [name]) n s)) \<and> G (fst (walk sys fn (p @ [name]) n s))"
      using False "5.prems"(1) by (intro "5.IH"(2)[OF refl _ _ "5.prems"(2)]) auto
    with f have n: "I s1" "G err" by simp_all
    show ?thesis
    proof (cases "err \<noteq> Nil \<and> (\<not> IsDir n \<or> err \<noteq> SkipDir)")
      case stop: True
      with False f n show ?thesis by (simp add: Let_def)
    next
      case go: False
      with False f have "walkNames sys fn p ((name, n) # rest) s = walkNames sys fn p rest s1"
        by (auto simp: Let_def)
      moreover have "I (snd (walkNames sys fn p rest s1)) \<and> G (fst (walkNames sys fn p rest s1))"
        using False f n(1) go
        by (intro "5.IH"(3)[OF refl _ _ _ _ "5.prems"(2)]) (auto simp: Let_def)
      ultimately show ?thesis by simp
    qed
  qed
qed

lemma preservesD: "preserves R fn \<Longrightarrow> R a b \<Longrightarrow> agree R (fn p f e a) (fn p f e b)"
  by (simp add: preserves_def)

lemma agree_pair: "agree R (x, a) (y, b) \<longleftrightarrow> x = y \<and> R a b"
  by (simp add: agree_def)

lemma walk_agree:
  shows "preserves R fn \<Longrightarrow> R a b \<Longrightarrow> agree R (walk sys fn p n a) (walk sys fn p n b)"
    and "preserves R fn \<Longrightarrow> R a b \<Longrightarrow> agree R (walkNames sys fn p es a) (walkNames sys fn p es b)"
proof (induction sys fn p n a and sys fn p es a arbitrary: b and b rule: walk_walkNames.induct)
  case (1 sys fn p es a)
  let ?err = "if SysReadDir p \<in> set sys then Some (ErrOS EACCES) else None"
  obtain ea a1 where fa: "fn p (Some (Dir es)) ?err a = (ea, a1)"
    by (cases "fn p (Some (Dir es)) ?err a")
  obtain eb b1 where fb: "fn p (Some (Dir es)) ?err b = (eb, b1)"
    by (cases "fn p (Some (Dir es)) ?err b")
  have "agree R (fn p (Some (Dir es)) ?err a) (fn p (Some (Dir es)) ?err b)"
    using "1.prems" by (rule preservesD)
  then have r: "eb = ea" "R a1 b1" unfolding fa fb by (simp_all add: agree_pair)
  show ?case
  proof (cases "?err \<noteq> None \<or> ea \<noteq> Nil")
    case True
    with fa fb r show ?thesis by (auto simp: Let_def agree_pair)
  next
    case False
    with fa fb r have "walk sys fn p (Dir es) a = walkNames sys fn p es a1"
      "walk sys fn p (Dir es) b = walkNames sys fn p es b1"
      by (auto simp: Let_def)
    moreover have "agree R (walkNames sys fn p es a1) (walkNames sys fn p es b1)"
      using False fa r(2) by (intro "1.IH"[OF refl _ _ "1.prems"(1)]) (auto simp: Let_def)
    ultimately show ?thesis by simp
  qed
next
  case (2 sys fn p c a)
  then show ?case by (simp add: preservesD)
next
  case (3 sys fn p t a)
  then show ?case by (simp add: preservesD)
next
  case (4 sys fn p a)
  then show ?case by (simp add: agree_pair)
next
  case (5 sys fn p name n rest a)
  show ?case
  proof (cases "SysLstat (p @ [name]) \<in> set sys")
    case True
    obtain ea a1 where fa: "fn (p @ [name]) None (Some (ErrOS EACCES)) a = (ea, a1)"
      by (cases "fn (p @ [name]) None (Some (ErrOS EACCES)) a")
    obtain eb b1 where fb: "fn (p @ [name]) None (Some (ErrOS EACCES)) b = (eb, b1)"
      by (cases "fn (p @ [name]) None (Some (ErrOS EACCES)) b")
    have "agree R (fn (p @ [name]) None (Some (ErrOS EACCES)) a)
        (fn (p @ [name]) None (Some (ErrOS EACCES)) b)"
      using "5.prems" by (rule preservesD)
    then have r: "eb = ea" "R a1 b1" unfolding fa fb by (simp_all add: agree_pair)
    show ?thesis
    proof (cases "ea \<noteq> Nil \<and> ea \<noteq> SkipDir")
      case stop: True
      with True fa fb r show ?thesis by (simp add: Let_def agree_pair)
    next
      case go: False
      with True fa fb r have "walkNames sys fn p ((name, n) # rest) a = walkNames sys fn p rest a1"
        "walkNames sys fn p ((name, n) # rest) b = walkNames sys fn p rest b1"
        by (auto simp: Let_def)
      moreover have "agree R (walkNames sys fn p rest a1) (walkNames sys fn p rest b1)"
        using True fa r(2) go
        by (intro "5.IH"(1)[OF refl _ _ _ "5.prems"(1)]) (auto simp: Let_def)
      ultimately show ?thesis by simp
    qed
  next
    case False
    obtain ea a1 where fa: "walk sys fn (p @ [name]) n a = (ea, a1)"
      by (cases "walk sys fn (p @ [name]) n a")
    obtain eb b1 where fb: "walk sys fn (p @ [name]) n b = (eb, b1)"
      by (cases "walk sys fn (p @ [name]) n b")
    have "agree R (walk sys fn (p @ [name]) n a) (walk sys fn (p @ [name]) n b)"
      using False "5.prems"(2) by (intro "5.IH"(2)[OF refl _ "5.prems"(1)]) auto
    then have r: "eb = ea" "R a1 b1" unfolding fa fb by (simp_all add: agree_pair)
    show ?thesis
    proof (cases "ea \<noteq> Nil \<and> (\<not> IsDir n \<or> ea \<noteq> SkipDir)")
      case stop: True
      with False fa fb r show ?thesis by (simp add: Let_def agree_pair)
    next
      case go: False
      with False fa fb r have "walkNames sys fn p ((name, n) # rest) a = walkNames sys fn p rest a1"
        "walkNames sys fn p ((name, n) # rest) b = walkNames sys fn p rest b1"
        by (auto simp: Let_def)
      moreover have "agree R (walkNames sys fn p rest a1) (walkNames sys fn p rest b1)"
        using False fa r(2) go
        by (intro "5.IH"(3)[OF refl _ _ _ "5.prems"(1)]) (auto simp: Let_def)
      ultimately show ?thesis by simp
    qed
  qed
qed

lemma Walk_post:
  assumes fn: "\<And>p f e s. I s \<Longrightarrow> f \<noteq> None \<or> e \<noteq> None \<Longrightarrow>
      I (snd (fn p f e s)) \<and> G (fst (fn p f e s))"
    and nil: "G Nil"
    and s: "I s"
  shows "I (snd (Walk d rt fn s)) \<and> G (fst (Walk d rt fn s))"
proof (cases "Lstat rt d")
  case (Inl e)
  have "I (snd (fn rt None (Some e) s)) \<and> G (fst (fn rt None (Some e) s))"
    using s by (intro fn) simp_all
  with Inl nil show ?thesis by (auto simp: Walk_def split: prod.splits)
next
  case (Inr info)
  have "I (snd (walk (refused d) fn rt info s)) \<and> G (fst (walk (refused d) fn rt info s))"
    using fn nil s by (rule walk_post(1))
  with Inr nil show ?thesis by (auto simp: Walk_def split: prod.splits)
qed

lemma Walk_agree:
  assumes fn: "preserves R fn" and ab: "R a b" and d: "sameDisk d d'"
  shows "agree R (Walk d rt fn a) (Walk d' rt fn b)"
proof -
  from d have l: "Lstat rt d' = Lstat rt d" "refused d' = refused d"
    by (simp_all add: sameDisk_def Lstat_def)
  show ?thesis
  proof (cases "Lstat rt d")
    case (Inl e)
    from fn ab have "agree R (fn rt None (Some e) a) (fn rt None (Some e) b)"
      by (rule preservesD)
    with Inl l show ?thesis by (auto simp: Walk_def agree_def split: prod.splits)
  next
    case (Inr info)
    from fn ab have "agree R (walk (refused d) fn rt info a) (walk (refused d) fn rt info b)"
      by (rule walk_agree(1))
    with Inr l show ?thesis by (auto simp: Walk_def agree_def split: prod.splits)
  qed
qed

lemma sameDisk_refl: "sameDisk w w"
  by (simp add: sameDisk_def)

lemma sameIndexes_refl: "sameIndexes w w"
  by (simp add: sameIndexes_def sameDisk_def)

lemma sameMovies_logged: "sameMovies a b \<Longrightarrow> sameMovies (logged lv m a) (logged lv' m' b)"
  by (simp add: sameMovies_def sameDisk_def logged_def logf_def)

lemma sameShows_logged: "sameShows a b \<Longrightarrow> sameShows (logged lv m a) (logged lv' m' b)"
  by (simp add: sameShows_def sameDisk_def logged_def logf_def)

lemma readFile_world: "readFile p w = (r, w') \<Longrightarrow> w' = w"
  by (auto simp: readFile_def fail_def ret_def split: if_splits option.splits node.splits)

lemma readFile_disk: "sameDisk w w' \<Longrightarrow> fst (readFile p w') = fst (readFile p w)"
  by (simp add: readFile_def sameDisk_def fail_def ret_def split: option.splits node.splits)

lemma newMovieFromPath_world: "newMovieFromPath l p w = (r, w') \<Longrightarrow> w' = w"
  by (auto simp: newMovieFromPath_def readMovieNFO_def andThen_def fail_def ret_def
      dest: readFile_world split: prod.splits sum.splits content.splits)

lemma newEpisodeFromPath_world: "newEpisodeFromPath l p w = (r, w') \<Longrightarrow> w' = w"
  by (auto simp: newEpisodeFromPath_def readEpisodeNFO_def andThen_def fail_def ret_def
      dest: readFile_world split: prod.splits sum.splits content.splits)

lemma newShowFromPath_world: "newShowFromPath l p w = (r, w') \<Longrightarrow> w' = w"
  by (auto simp: newShowFromPath_def readShowNFO_def andThen_def fail_def ret_def
      dest: readFile_world split: prod.splits sum.splits content.splits)

lemma readFile_eq: "readFile p w = (fst (readFile p w), w)"
  by (cases "readFile p w") (auto dest: readFile_world)

lemma newMovieFromPath_disk:
  assumes "sameDisk w w'"
  shows "fst (newMovieFromPath l p w') = fst (newMovieFromPath l p w)"
proof -
  obtain r where a: "readFile (NfoPath p) w = (r, w)"
    using readFile_eq by blast
  with readFile_disk [OF assms, of "NfoPath p"] readFile_eq [of "NfoPath p" w']
  have b: "readFile (NfoPath p) w' = (r, w')" by simp
  show ?thesis
    by (simp add: newMovieFromPath_def readMovieNFO_def andThen_def a b fail_def ret_def
        split: sum.splits content.splits)
qed

lemma newEpisodeFromPath_disk:
  assumes "sameDisk w w'"
  shows "fst (newEpisodeFromPath l p w') = fst (newEpisodeFromPath l p w)"
proof -
  obtain r where a: "readFile (NfoPath p) w = (r, w)"
    using readFile_eq by blast
  with readFile_disk [OF assms, of "NfoPath p"] readFile_eq [of "NfoPath p" w']
  have b: "readFile (NfoPath p) w' = (r, w')" by simp
  show ?thesis
    by (simp add: newEpisodeFromPath_def readEpisodeNFO_def andThen_def a b fail_def ret_def
        split: sum.splits content.splits)
qed

lemma newShowFromPath_disk:
  assumes "sameDisk w w'"
  shows "fst (newShowFromPath l p w') = fst (newShowFromPath l p w)"
proof -
  obtain r where a: "readFile (p) w = (r, w)"
    using readFile_eq by blast
  with readFile_disk [OF assms, of "p"] readFile_eq [of "p" w']
  have b: "readFile (p) w' = (r, w')" by simp
  show ?thesis
    by (simp add: newShowFromPath_def readShowNFO_def andThen_def a b fail_def ret_def
        split: sum.splits content.splits)
qed

lemma newMovieFromPath_eq: "newMovieFromPath l p w = (fst (newMovieFromPath l p w), w)"
  by (cases "newMovieFromPath l p w") (auto dest: newMovieFromPath_world)

lemma newEpisodeFromPath_eq: "newEpisodeFromPath l p w = (fst (newEpisodeFromPath l p w), w)"
  by (cases "newEpisodeFromPath l p w") (auto dest: newEpisodeFromPath_world)

lemma newShowFromPath_eq: "newShowFromPath l p w = (fst (newShowFromPath l p w), w)"
  by (cases "newShowFromPath l p w") (auto dest: newShowFromPath_world)

subsection \<open>The movie scan\<close>

lemma movieWalkFn_Nil: "f \<noteq> None \<or> e \<noteq> None \<Longrightarrow> fst (movieWalkFn l p f e w) = Nil"
  by (auto simp: movieWalkFn_def Let_def split: option.splits prod.splits sum.splits)

lemma movieWalkFn_keeps:
  "root (snd (movieWalkFn l p f e w)) = root w \<and>
   refused (snd (movieWalkFn l p f e w)) = refused w \<and>
   showIndex (snd (movieWalkFn l p f e w)) = showIndex w"
  by (auto simp: movieWalkFn_def Let_def logged_def logf_def MovieIndex_Add_def
      dest: newMovieFromPath_world split: option.splits prod.splits sum.splits)

lemma movieWalkFn_preserves: "preserves sameMovies (movieWalkFn l)"
  unfolding preserves_def
proof (intro allI impI)
  fix p f e a b
  assume ab: "sameMovies a b"
  then have d: "fst (newMovieFromPath l p b) = fst (newMovieFromPath l p a)"
    by (intro newMovieFromPath_disk) (simp add: sameMovies_def)
  show "agree sameMovies (movieWalkFn l p f e a) (movieWalkFn l p f e b)"
  proof (cases "fst (newMovieFromPath l p a)")
    case (Inl x)
    with d ab show ?thesis
      using newMovieFromPath_eq [of l p a] newMovieFromPath_eq [of l p b]
      by (auto simp: movieWalkFn_def Let_def agree_def sameMovies_logged
          split: option.splits)
  next
    case (Inr m)
    with d ab show ?thesis
      using newMovieFromPath_eq [of l p a] newMovieFromPath_eq [of l p b]
      by (auto simp: movieWalkFn_def Let_def agree_def logged_def logf_def MovieIndex_Add_def
          sameMovies_def sameDisk_def split: option.splits)
  qed
qed

lemma buildMovieIndex_post:
  "(root (snd (buildMovieIndex l w)) = root w \<and>
    refused (snd (buildMovieIndex l w)) = refused w \<and>
    showIndex (snd (buildMovieIndex l w)) = showIndex w) \<and>
   fst (buildMovieIndex l w) = Nil"
proof -
  let ?I = "\<lambda>s. root s = root w \<and> refused s = refused w \<and> showIndex s = showIndex w"
  have "?I (snd (Walk w (MovieDir l) (movieWalkFn l) w)) \<and>
      fst (Walk w (MovieDir l) (movieWalkFn l) w) = Nil"
    by (rule Walk_post [where I = ?I and G = "\<lambda>r. r = Nil"])
      (simp_all add: movieWalkFn_Nil movieWalkFn_keeps)
  moreover obtain e w' where "Walk w (MovieDir l) (movieWalkFn l) w = (e, w')"
    by (cases "Walk w (MovieDir l) (movieWalkFn l) w")
  ultimately show ?thesis
    by (simp add: buildMovieIndex_def logged_def logf_def)
qed

lemma buildMovieIndex_agree:
  assumes "sameMovies a b"
  shows "agree sameMovies (buildMovieIndex l a) (buildMovieIndex l b)"
proof -
  from assms have "sameDisk a b" by (simp add: sameMovies_def)
  with movieWalkFn_preserves assms
  have "agree sameMovies (Walk a (MovieDir l) (movieWalkFn l) a)
      (Walk b (MovieDir l) (movieWalkFn l) b)"
    by (rule Walk_agree)
  moreover obtain ea a' where "Walk a (MovieDir l) (movieWalkFn l) a = (ea, a')"
    by (cases "Walk a (MovieDir l) (movieWalkFn l) a")
  moreover obtain eb b' where "Walk b (MovieDir l) (movieWalkFn l) b = (eb, b')"
    by (cases "Walk b (MovieDir l) (movieWalkFn l) b")
  ultimately show ?thesis
    by (simp add: buildMovieIndex_def agree_def sameMovies_logged)
qed

subsection \<open>The show scan\<close>

lemma episodeWalkFn_Nil: "f \<noteq> None \<or> e \<noteq> None \<Longrightarrow> fst (episodeWalkFn l i p f e w) = Nil"
  by (auto simp: episodeWalkFn_def Let_def split: option.splits prod.splits sum.splits)

lemma episodeWalkFn_keeps:
  "root (snd (episodeWalkFn l i p f e w)) = root w \<and>
   refused (snd (episodeWalkFn l i p f e w)) = refused w \<and>
   movieIndex (snd (episodeWalkFn l i p f e w)) = movieIndex w"
  by (auto simp: episodeWalkFn_def Let_def logged_def logf_def ShowIndex_Add_def
      dest: newEpisodeFromPath_world split: option.splits prod.splits sum.splits)

lemma episodeWalkFn_preserves: "preserves sameShows (episodeWalkFn l i)"
  unfolding preserves_def
proof (intro allI impI)
  fix p f e a b
  assume ab: "sameShows a b"
  then have d: "fst (newEpisodeFromPath l p b) = fst (newEpisodeFromPath l p a)"
    by (intro newEpisodeFromPath_disk) (simp add: sameShows_def)
  show "agree sameShows (episodeWalkFn l i p f e a) (episodeWalkFn l i p f e b)"
  proof (cases "fst (newEpisodeFromPath l p a)")
    case (Inl x)
    with d ab show ?thesis
      using newEpisodeFromPath_eq [of l p a] newEpisodeFromPath_eq [of l p b]
      by (auto simp: episodeWalkFn_def Let_def agree_def sameShows_logged
          split: option.splits)
  next
    case (Inr m)
    with d ab show ?thesis
      using newEpisodeFromPath_eq [of l p a] newEpisodeFromPath_eq [of l p b]
      by (auto simp: episodeWalkFn_def Let_def agree_def logged_def logf_def ShowIndex_Add_def
          sameShows_def sameDisk_def split: option.splits)
  qed
qed

lemma scanEpisodes_post:
  "(root (snd (scanEpisodes l i p w)) = root w \<and>
    refused (snd (scanEpisodes l i p w)) = refused w \<and>
    movieIndex (snd (scanEpisodes l i p w)) = movieIndex w) \<and>
   fst (scanEpisodes l i p w) = Nil"
  unfolding scanEpisodes_def
  by (rule Walk_post [where I = "\<lambda>s. root s = root w \<and> refused s = refused w \<and>
        movieIndex s = movieIndex w" and G = "\<lambda>r. r = Nil"])
    (simp_all add: episodeWalkFn_Nil episodeWalkFn_keeps)

lemma scanEpisodes_postD:
  "scanEpisodes l i p w = (e, w') \<Longrightarrow>
   root w' = root w \<and> refused w' = refused w \<and> movieIndex w' = movieIndex w \<and> e = Nil"
  using scanEpisodes_post [of l i p w] by simp

lemma scanEpisodes_agree:
  assumes "sameShows a b"
  shows "agree sameShows (scanEpisodes l i p a) (scanEpisodes l i p b)"
proof -
  from assms have "sameDisk a b" by (simp add: sameShows_def)
  with episodeWalkFn_preserves assms show ?thesis
    unfolding scanEpisodes_def by (rule Walk_agree)
qed

lemma showWalkFn_post:
  assumes "root (snd s) = root w \<and> refused (snd s) = refused w \<and>
      movieIndex (snd s) = movieIndex w"
  shows "(root (snd (snd (showWalkFn l p f e s))) = root w \<and>
      refused (snd (snd (showWalkFn l p f e s))) = refused w \<and>
      movieIndex (snd (snd (showWalkFn l p f e s))) = movieIndex w) \<and>
    (\<forall>x. fst (showWalkFn l p f e s) \<noteq> Err x)"
proof -
  obtain r v where s: "s = (r, v)" by (cases s)
  show ?thesis
    using assms newShowFromPath_eq [of l "showNFOPath l p" v]
    unfolding s
    by (auto simp: showWalkFn_def logged_def logf_def dest!: scanEpisodes_postD
        split: option.splits prod.splits sum.splits)
qed

lemma showWalkFn_preserves: "preserves (rel_prod (=) sameShows) (showWalkFn l)"
  unfolding preserves_def
proof (intro allI impI)
  fix p f e and a b :: "bool \<times> world"
  assume ab: "rel_prod (=) sameShows a b"
  obtain r v where a: "a = (r, v)" by (cases a)
  with ab obtain v' where b: "b = (r, v')" and v: "sameShows v v'"
    by (cases b) simp
  let ?n = "showNFOPath l p"
  from v have d: "fst (newShowFromPath l ?n v') = fst (newShowFromPath l ?n v)"
    by (intro newShowFromPath_disk) (simp add: sameShows_def)
  show "agree (rel_prod (=) sameShows) (showWalkFn l p f e a) (showWalkFn l p f e b)"
  proof (cases "fst (newShowFromPath l ?n v)")
    case (Inl x)
    with d v show ?thesis
      using newShowFromPath_eq [of l ?n v] newShowFromPath_eq [of l ?n v']
      unfolding a b
      by (auto simp: showWalkFn_def agree_def sameShows_logged split: option.splits)
  next
    case (Inr sh)
    have "agree sameShows (scanEpisodes l (show_ImdbID sh) p v)
        (scanEpisodes l (show_ImdbID sh) p v')"
      using v by (rule scanEpisodes_agree)
    with Inr d v show ?thesis
      using newShowFromPath_eq [of l ?n v] newShowFromPath_eq [of l ?n v']
      unfolding a b
      by (auto simp: showWalkFn_def agree_def split: option.splits prod.splits)
  qed
qed

lemma buildShowIndex_post:
  "(root (snd (buildShowIndex l w)) = root w \<and>
    refused (snd (buildShowIndex l w)) = refused w \<and>
    movieIndex (snd (buildShowIndex l w)) = movieIndex w) \<and>
   (\<forall>x. fst (buildShowIndex l w) \<noteq> Err x)"
proof -
  let ?I = "\<lambda>s. root (snd s) = root w \<and> refused (snd s) = refused w \<and>
      movieIndex (snd s) = movieIndex w"
  have "?I (snd (Walk w (ShowDir l) (showWalkFn l) (False, w))) \<and>
      (\<forall>x. fst (Walk w (ShowDir l) (showWalkFn l) (False, w)) \<noteq> Err x)"
    by (rule Walk_post [where I = ?I and G = "\<lambda>r. \<forall>x. r \<noteq> Err x"])
      (simp_all add: showWalkFn_post)
  moreover obtain e r w' where "Walk w (ShowDir l) (showWalkFn l) (False, w) = (e, r, w')"
    by (cases "Walk w (ShowDir l) (showWalkFn l) (False, w)") auto
  ultimately show ?thesis
    by (simp add: buildShowIndex_def logged_def logf_def)
qed

lemma buildShowIndex_agree:
  assumes "sameShows a b"
  shows "agree sameShows (buildShowIndex l a) (buildShowIndex l b)"
proof -
  from assms have "sameDisk a b" by (simp add: sameShows_def)
  moreover from assms have "rel_prod (=) sameShows (False, a) (False, b)" by simp
  ultimately have "agree (rel_prod (=) sameShows)
      (Walk a (ShowDir l) (showWalkFn l) (False, a)) (Walk b (ShowDir l) (showWalkFn l) (False, b))"
    using showWalkFn_preserves by (intro Walk_agree)
  moreover obtain ea ra a' where "Walk a (ShowDir l) (showWalkFn l) (False, a) = (ea, ra, a')"
    by (cases "Walk a (ShowDir l) (showWalkFn l) (False, a)") auto
  moreover obtain eb rb b' where "Walk b (ShowDir l) (showWalkFn l) (False, b) = (eb, rb, b')"
    by (cases "Walk b (ShowDir l) (showWalkFn l) (False, b)") auto
  ultimately show ?thesis
    by (simp add: buildShowIndex_def agree_def sameShows_logged)
qed

subsection \<open>Both scans\<close>

lemma RebuildIndex_disk: "sameDisk w (snd (RebuildIndex l w))"
proof -
  let ?w2 = "snd (ShowIndex_Clear (snd (MovieIndex_Clear w)))"
  obtain em w3 where m: "buildMovieIndex l ?w2 = (em, w3)" by (cases "buildMovieIndex l ?w2")
  obtain es w4 where s: "buildShowIndex l w3 = (es, w4)" by (cases "buildShowIndex l w3")
  from buildMovieIndex_post [of l ?w2] m have "root w3 = root w" "refused w3 = refused w"
    by (simp_all add: MovieIndex_Clear_def ShowIndex_Clear_def)
  moreover from buildShowIndex_post [of l w3] s have "root w4 = root w3" "refused w4 = refused w3"
    by simp_all
  ultimately show ?thesis
    using m s by (simp add: RebuildIndex_def Let_def sameDisk_def)
qed

lemma scans_agree:
  assumes "sameDisk a b" and "movieIndex b = movieIndex a" and "showIndex b = showIndex a"
  shows "fst (buildMovieIndex l b) = fst (buildMovieIndex l a) \<and>
    movieIndex (snd (buildMovieIndex l b)) = movieIndex (snd (buildMovieIndex l a))"
    and "fst (buildShowIndex l b) = fst (buildShowIndex l a) \<and>
    showIndex (snd (buildShowIndex l b)) = showIndex (snd (buildShowIndex l a))"
proof -
  from assms have "sameMovies a b" by (simp add: sameMovies_def)
  then have "agree sameMovies (buildMovieIndex l a) (buildMovieIndex l b)"
    by (rule buildMovieIndex_agree)
  then show "fst (buildMovieIndex l b) = fst (buildMovieIndex l a) \<and>
    movieIndex (snd (buildMovieIndex l b)) = movieIndex (snd (buildMovieIndex l a))"
    by (simp add: agree_def sameMovies_def)
  from assms have "sameShows a b" by (simp add: sameShows_def)
  then have "agree sameShows (buildShowIndex l a) (buildShowIndex l b)"
    by (rule buildShowIndex_agree)
  then show "fst (buildShowIndex l b) = fst (buildShowIndex l a) \<and>
    showIndex (snd (buildShowIndex l b)) = showIndex (snd (buildShowIndex l a))"
    by (simp add: agree_def sameShows_def)
qed

lemma RebuildIndex_scans:
  "movieIndex (snd (RebuildIndex l w)) =
     movieIndex (snd (buildMovieIndex l (w\<lparr>movieIndex := Map.empty, showIndex := Map.empty\<rparr>))) \<and>
   showIndex (snd (RebuildIndex l w)) =
     showIndex (snd (buildShowIndex l (w\<lparr>movieIndex := Map.empty, showIndex := Map.empty\<rparr>))) \<and>
   fst (RebuildIndex l w) =
     fst (buildShowIndex l (w\<lparr>movieIndex := Map.empty, showIndex := Map.empty\<rparr>))"
proof -
  let ?w0 = "w\<lparr>movieIndex := Map.empty, showIndex := Map.empty\<rparr>"
  obtain em w3 where m: "buildMovieIndex l ?w0 = (em, w3)" by (cases "buildMovieIndex l ?w0")
  obtain es w4 where s: "buildShowIndex l w3 = (es, w4)" by (cases "buildShowIndex l w3")
  from buildMovieIndex_post [of l ?w0] m
  have k3: "root w3 = root ?w0" "refused w3 = refused ?w0" "showIndex w3 = showIndex ?w0"
    "em = Nil" by simp_all
  from buildShowIndex_post [of l w3] s have k4: "movieIndex w4 = movieIndex w3" by simp
  from k3 have "sameShows ?w0 w3" by (simp add: sameShows_def sameDisk_def)
  then have "agree sameShows (buildShowIndex l ?w0) (buildShowIndex l w3)"
    by (rule buildShowIndex_agree)
  with s have e: "fst (buildShowIndex l ?w0) = es"
    "showIndex w4 = showIndex (snd (buildShowIndex l ?w0))"
    by (simp_all add: agree_def sameShows_def)
  have r: "RebuildIndex l w = (es, w4)"
    using m s k3(4)
    by (simp add: RebuildIndex_def Let_def MovieIndex_Clear_def ShowIndex_Clear_def)
  from r m k4 e show ?thesis by simp
qed

lemma RebuildIndex_agree:
  assumes "sameDisk a b"
  shows "agree sameIndexes (RebuildIndex l a) (RebuildIndex l b)"
proof -
  let ?a = "a\<lparr>movieIndex := Map.empty, showIndex := Map.empty\<rparr>"
  let ?b = "b\<lparr>movieIndex := Map.empty, showIndex := Map.empty\<rparr>"
  from assms have d: "sameDisk ?a ?b" by (simp add: sameDisk_def)
  have i: "movieIndex ?b = movieIndex ?a" "showIndex ?b = showIndex ?a" by simp_all
  from scans_agree [OF d i, of l] RebuildIndex_scans [of l a] RebuildIndex_scans [of l b]
  have "fst (RebuildIndex l a) = fst (RebuildIndex l b)"
    "movieIndex (snd (RebuildIndex l b)) = movieIndex (snd (RebuildIndex l a))"
    "showIndex (snd (RebuildIndex l b)) = showIndex (snd (RebuildIndex l a))"
    by simp_all
  moreover from RebuildIndex_disk [of a l] RebuildIndex_disk [of b l] assms
  have "sameDisk (snd (RebuildIndex l a)) (snd (RebuildIndex l b))"
    by (simp add: sameDisk_def)
  ultimately show ?thesis by (simp add: agree_def sameIndexes_def)
qed

lemma RebuildIndex_no_error: "fst (RebuildIndex l w) \<noteq> Err x"
proof -
  let ?w2 = "snd (ShowIndex_Clear (snd (MovieIndex_Clear w)))"
  obtain em w3 where m: "buildMovieIndex l ?w2 = (em, w3)" by (cases "buildMovieIndex l ?w2")
  obtain es w4 where s: "buildShowIndex l w3 = (es, w4)" by (cases "buildShowIndex l w3")
  from buildMovieIndex_post [of l ?w2] m have "em = Nil" by simp
  moreover from buildShowIndex_post [of l w3] s have "es \<noteq> Err x" by simp
  ultimately show ?thesis
    using m s by (simp add: RebuildIndex_def Let_def)
qed

subsection \<open>Failures during a scan\<close>

text \<open>
  Claim C7, as amended. In the movie scan and in the episode scan of a show, a file whose
  sidecar cannot be read or parsed is logged and skipped: the walk function logs an error,
  leaves the indexes as they are and returns nil, so the walk goes on. A failure of the walk
  itself that is handed to one of these walk functions is treated in the same way: it is
  logged and nil is returned. So the movie scan and the episode scan always return nil,
  and neither the show scan nor \<open>RebuildIndex\<close> ever returns an error.
\<close>

theorem scan_failures_are_logged:
  "(p \<noteq> [] \<and> \<not> IsDir f \<and> pathExt p \<in> set (VideoExtentions l) \<and>
    fst (newMovieFromPath l p w) = Inl e \<longrightarrow>
      movieWalkFn l p (Some f) None w =
        (Nil, w\<lparr>logs := logs w @ [(Error, ''library: failed to read movie NFO'')]\<rparr>)) \<and>
   (p \<noteq> [] \<and> \<not> IsDir f \<and> pathExt p \<in> set (VideoExtentions l) \<and>
    fst (newEpisodeFromPath l p w) = Inl e \<longrightarrow>
      episodeWalkFn l i p (Some f) None w =
        (Nil, w\<lparr>logs := logs w @ [(Error, ''library: failed to read episode NFO'')]\<rparr>)) \<and>
   movieWalkFn l p g (Some e') w =
     (Nil, w\<lparr>logs := logs w @ [(Error, ''library: failed to walk'')]\<rparr>) \<and>
   episodeWalkFn l i p g (Some e') w =
     (Nil, w\<lparr>logs := logs w @ [(Error, ''library: failed to walk'')]\<rparr>) \<and>
   fst (buildMovieIndex l w) = Nil \<and>
   fst (scanEpisodes l i p w) = Nil \<and>
   fst (buildShowIndex l w) \<noteq> Err x \<and>
   fst (RebuildIndex l w) \<noteq> Err x"
proof (intro conjI impI)
  assume "p \<noteq> [] \<and> \<not> IsDir f \<and> pathExt p \<in> set (VideoExtentions l) \<and>
    fst (newMovieFromPath l p w) = Inl e"
  then show "movieWalkFn l p (Some f) None w =
      (Nil, w\<lparr>logs := logs w @ [(Error, ''library: failed to read movie NFO'')]\<rparr>)"
    using newMovieFromPath_eq [of l p w]
    by (simp add: movieWalkFn_def Let_def logged_def logf_def)
next
  assume "p \<noteq> [] \<and> \<not> IsDir f \<and> pathExt p \<in> set (VideoExtentions l) \<and>
    fst (newEpisodeFromPath l p w) = Inl e"
  then show "episodeWalkFn l i p (Some f) None w =
      (Nil, w\<lparr>logs := logs w @ [(Error, ''library: failed to read episode NFO'')]\<rparr>)"
    using newEpisodeFromPath_eq [of l p w]
    by (simp add: episodeWalkFn_def Let_def logged_def logf_def)
next
  show "movieWalkFn l p g (Some e') w =
     (Nil, w\<lparr>logs := logs w @ [(Error, ''library: failed to walk'')]\<rparr>)"
    by (simp add: movieWalkFn_def logged_def logf_def)
  show "episodeWalkFn l i p g (Some e') w =
     (Nil, w\<lparr>logs := logs w @ [(Error, ''library: failed to walk'')]\<rparr>)"
    by (simp add: episodeWalkFn_def logged_def logf_def)
  show "fst (buildMovieIndex l w) = Nil" by (simp add: buildMovieIndex_post)
  show "fst (scanEpisodes l i p w) = Nil" by (simp add: scanEpisodes_post)
  show "fst (buildShowIndex l w) \<noteq> Err x" by (simp add: buildShowIndex_post)
  show "fst (RebuildIndex l w) \<noteq> Err x" by (rule RebuildIndex_no_error)
qed

text \<open>
  The movie file that was put on the disk by hand, with no sidecar: both walk functions log
  the failure and return nil, and the movie scan of that disk returns nil with an empty
  index. On the disk with two movies the scan logs the sidecar that is not a document, goes
  on, and indexes the second movie.
\<close>

theorem scan_failures_are_logged_witness:
  "[''movies'', ''Foo (2020)'', ''foo.mkv''] \<noteq> [] \<and> \<not> IsDir (File Media) \<and>
   pathExt [''movies'', ''Foo (2020)'', ''foo.mkv''] \<in> set (VideoExtentions exLibrary) \<and>
   fst (newMovieFromPath exLibrary [''movies'', ''Foo (2020)'', ''foo.mkv''] exPlacedWorld)
     = Inl (ErrOS ENOENT) \<and>
   movieWalkFn exLibrary [''movies'', ''Foo (2020)'', ''foo.mkv''] (Some (File Media)) None
     exPlacedWorld =
     (Nil, exPlacedWorld\<lparr>logs := [(Error, ''library: failed to read movie NFO'')]\<rparr>) \<and>
   fst (newEpisodeFromPath exLibrary [''movies'', ''Foo (2020)'', ''foo.mkv''] exPlacedWorld)
     = Inl (ErrOS ENOENT) \<and>
   episodeWalkFn exLibrary ''tt100'' [''movies'', ''Foo (2020)'', ''foo.mkv'']
     (Some (File Media)) None exPlacedWorld =
     (Nil, exPlacedWorld\<lparr>logs := [(Error, ''library: failed to read episode NFO'')]\<rparr>) \<and>
   fst (buildMovieIndex exLibrary exPlacedWorld) = Nil \<and>
   movieIndex (snd (buildMovieIndex exLibrary exPlacedWorld)) = Map.empty \<and>
   fst (newMovieFromPath exLibrary [''movies'', ''Aaa'', ''aaa.mkv''] exBrokenWorld)
     = Inl ErrParse \<and>
   buildMovieIndex exLibrary exBrokenWorld =
     (Nil, exBrokenWorld
        \<lparr>logs := [(Error, ''library: failed to read movie NFO''), (Info, ''Index built'')],
         movieIndex := [''tt001'' \<mapsto> [''movies'', ''Foo (2020)'', ''foo.mkv'']]\<rparr>)"
proof -
  let ?p = "[''movies'', ''Foo (2020)'', ''foo.mkv'']"
  have a: "?p \<noteq> [] \<and> \<not> IsDir (File Media) \<and>
      pathExt ?p \<in> set (VideoExtentions exLibrary)"
    by (simp add: example_defs path_defs)
  have b: "fst (newMovieFromPath exLibrary ?p exPlacedWorld) = Inl (ErrOS ENOENT)"
    by (simp add: example_defs path_defs library_defs io_defs os_defs)
  have c: "fst (newEpisodeFromPath exLibrary ?p exPlacedWorld) = Inl (ErrOS ENOENT)"
    by (simp add: example_defs path_defs library_defs io_defs os_defs)
  have l: "logs exPlacedWorld = []" by (simp add: example_defs)
  note t = scan_failures_are_logged [where l = exLibrary and w = exPlacedWorld and p = ?p
      and f = "File Media" and e = "ErrOS ENOENT" and i = "''tt100''"]
  from t a b l have m: "movieWalkFn exLibrary ?p (Some (File Media)) None exPlacedWorld =
     (Nil, exPlacedWorld\<lparr>logs := [(Error, ''library: failed to read movie NFO'')]\<rparr>)"
    by simp
  from t a c l have n: "episodeWalkFn exLibrary ''tt100'' ?p (Some (File Media)) None
      exPlacedWorld =
     (Nil, exPlacedWorld\<lparr>logs := [(Error, ''library: failed to read episode NFO'')]\<rparr>)"
    by simp
  from t have r: "fst (buildMovieIndex exLibrary exPlacedWorld) = Nil" by blast
  have x: "movieIndex (snd (buildMovieIndex exLibrary exPlacedWorld)) = Map.empty"
    by (simp add: example_defs path_defs library_defs io_defs index_defs os_defs rebuild_defs)
  have y: "fst (newMovieFromPath exLibrary [''movies'', ''Aaa'', ''aaa.mkv''] exBrokenWorld)
      = Inl ErrParse"
    by (simp add: example_defs path_defs library_defs io_defs os_defs)
  have z: "buildMovieIndex exLibrary exBrokenWorld =
     (Nil, exBrokenWorld
        \<lparr>logs := [(Error, ''library: failed to read movie NFO''), (Info, ''Index built'')],
         movieIndex := [''tt001'' \<mapsto> [''movies'', ''Foo (2020)'', ''foo.mkv'']]\<rparr>)"
    by (simp add: example_defs path_defs library_defs io_defs index_defs os_defs rebuild_defs)
  from a b c m n r x y z show ?thesis by (intro conjI) simp_all
qed

text \<open>
  Claim C7 as it is written fails: the movie root is there but cannot be read, which is a
  failure in walking the tree; the movie scan logs it and returns nil, and \<open>RebuildIndex\<close>
  returns nil.
\<close>

theorem walk_failure_is_swallowed_counterexample:
  "lookup (root exRefusedWorld) (MovieDir exLibrary) \<noteq> None \<and>
   SysReadDir (MovieDir exLibrary) \<in> set (refused exRefusedWorld) \<and>
   buildMovieIndex exLibrary exRefusedWorld =
     (Nil, exRefusedWorld\<lparr>logs := [(Error, ''library: failed to walk''), (Info, ''Index built'')]\<rparr>) \<and>
   fst (RebuildIndex exLibrary exRefusedWorld) = Nil \<and>
   movieIndex (snd (RebuildIndex exLibrary exRefusedWorld)) = Map.empty"
  by (simp add: example_defs path_defs library_defs io_defs index_defs os_defs rebuild_defs)

subsection \<open>A walk function that is handed no \<^verbatim>\<open>FileInfo\<close>\<close>

lemma Lstat_disk: "sameDisk w w' \<Longrightarrow> Lstat p w' = Lstat p w"
  by (simp add: Lstat_def sameDisk_def)

lemma buildShowIndex_panic:
  assumes "Lstat (ShowDir l) w = Inl e"
  shows "buildShowIndex l w = (Panic, w)"
  using assms by (simp add: buildShowIndex_def Walk_def showWalkFn_def)

text \<open>
  Claim C8 does not hold of the code. When \<^verbatim>\<open>Lstat\<close> of the show root fails,
  \<^verbatim>\<open>filepath.Walk\<close> calls the walk function of \<open>buildShowIndex\<close> with a nil \<^verbatim>\<open>FileInfo\<close>
  and the error; its first statement calls \<^verbatim>\<open>file.IsDir()\<close>, which panics. So the show scan
  panics, and \<open>RebuildIndex\<close> with it.
\<close>

theorem show_scan_panics_on_nil_FileInfo:
  "Lstat (ShowDir l) w = Inl e \<longrightarrow>
     showWalkFn l (ShowDir l) None (Some e) (False, w) = (Panic, (False, w)) \<and>
     fst (buildShowIndex l w) = Panic \<and> fst (RebuildIndex l w) = Panic"
proof (intro impI conjI)
  assume a: "Lstat (ShowDir l) w = Inl e"
  show "showWalkFn l (ShowDir l) None (Some e) (False, w) = (Panic, (False, w))"
    by (simp add: showWalkFn_def)
  from a show "fst (buildShowIndex l w) = Panic" by (simp add: buildShowIndex_panic)
  let ?w2 = "snd (ShowIndex_Clear (snd (MovieIndex_Clear w)))"
  obtain em w3 where m: "buildMovieIndex l ?w2 = (em, w3)" by (cases "buildMovieIndex l ?w2")
  from buildMovieIndex_post [of l ?w2] m have "sameDisk w w3"
    by (simp add: sameDisk_def MovieIndex_Clear_def ShowIndex_Clear_def)
  from Lstat_disk[OF this] a have "Lstat (ShowDir l) w3 = Inl e" by simp
  then have "buildShowIndex l w3 = (Panic, w3)" by (rule buildShowIndex_panic)
  with m show "fst (RebuildIndex l w) = Panic" by (simp add: RebuildIndex_def Let_def)
qed

text \<open>
  A library whose show root is not on the disk: the movie scan returns nil, the show scan
  and \<open>RebuildIndex\<close> panic.
\<close>

theorem show_scan_panics_on_nil_FileInfo_witness:
  "Lstat (ShowDir exLibrary) exNoShowsWorld = Inl (ErrOS ENOENT) \<and>
   fst (buildMovieIndex exLibrary exNoShowsWorld) = Nil \<and>
   fst (buildShowIndex exLibrary exNoShowsWorld) = Panic \<and>
   fst (RebuildIndex exLibrary exNoShowsWorld) = Panic"
proof -
  have a: "Lstat (ShowDir exLibrary) exNoShowsWorld = Inl (ErrOS ENOENT)"
    by (simp add: example_defs Lstat_def)
  have b: "fst (buildMovieIndex exLibrary exNoShowsWorld) = Nil"
    by (simp add: buildMovieIndex_post)
  from show_scan_panics_on_nil_FileInfo
    [where l = exLibrary and w = exNoShowsWorld and e = "ErrOS ENOENT"] a
  have "fst (buildShowIndex exLibrary exNoShowsWorld) = Panic"
    "fst (RebuildIndex exLibrary exNoShowsWorld) = Panic"
    by simp_all
  with a b show ?thesis by simp
qed

subsection \<open>Rebuilding twice\<close>

text \<open>
  Claim C5. \<open>RebuildIndex\<close> leaves the disk as it is, and a second run, started in the
  world that the first run left, ends with the same outcome, the same movie index and the
  same show index as the first.
\<close>

theorem RebuildIndex_idempotent:
  "root (snd (RebuildIndex l w)) = root w \<and>
   refused (snd (RebuildIndex l w)) = refused w \<and>
   fst (RebuildIndex l (snd (RebuildIndex l w))) = fst (RebuildIndex l w) \<and>
   movieIndex (snd (RebuildIndex l (snd (RebuildIndex l w)))) =
     movieIndex (snd (RebuildIndex l w)) \<and>
   showIndex (snd (RebuildIndex l (snd (RebuildIndex l w)))) =
     showIndex (snd (RebuildIndex l w))"
proof -
  have d: "sameDisk w (snd (RebuildIndex l w))" by (rule RebuildIndex_disk)
  then have "agree sameIndexes (RebuildIndex l w) (RebuildIndex l (snd (RebuildIndex l w)))"
    by (rule RebuildIndex_agree)
  with d show ?thesis by (simp add: agree_def sameIndexes_def sameDisk_def)
qed

text \<open>
  The example disk with stale indexes: after the first run and after the second the
  indexes hold the stored movie and the stored episode, and nothing else.
\<close>

theorem RebuildIndex_idempotent_witness:
  "fst (RebuildIndex exLibrary exStaleWorld) = Nil \<and>
   movieIndex (snd (RebuildIndex exLibrary exStaleWorld)) =
     [''tt001'' \<mapsto> [''movies'', ''Foo (2020)'', ''foo.mkv'']] \<and>
   showIndex (snd (RebuildIndex exLibrary exStaleWorld)) =
     [''tt100'' \<mapsto> [1 \<mapsto> [1 \<mapsto> [''shows'', ''Bar'', ''Season 1'', ''bar.s01e01.mkv'']]]] \<and>
   fst (RebuildIndex exLibrary (snd (RebuildIndex exLibrary exStaleWorld))) = Nil \<and>
   movieIndex (snd (RebuildIndex exLibrary (snd (RebuildIndex exLibrary exStaleWorld)))) =
     [''tt001'' \<mapsto> [''movies'', ''Foo (2020)'', ''foo.mkv'']] \<and>
   showIndex (snd (RebuildIndex exLibrary (snd (RebuildIndex exLibrary exStaleWorld)))) =
     [''tt100'' \<mapsto> [1 \<mapsto> [1 \<mapsto> [''shows'', ''Bar'', ''Season 1'', ''bar.s01e01.mkv'']]]]"
proof -
  have a: "fst (RebuildIndex exLibrary exStaleWorld) = Nil"
    by (simp add: example_defs path_defs library_defs io_defs index_defs os_defs rebuild_defs)
  have b: "movieIndex (snd (RebuildIndex exLibrary exStaleWorld)) =
     [''tt001'' \<mapsto> [''movies'', ''Foo (2020)'', ''foo.mkv'']]"
    by (simp add: example_defs path_defs library_defs io_defs index_defs os_defs rebuild_defs)
  have c: "showIndex (snd (RebuildIndex exLibrary exStaleWorld)) =
     [''tt100'' \<mapsto> [1 \<mapsto> [1 \<mapsto> [''shows'', ''Bar'', ''Season 1'', ''bar.s01e01.mkv'']]]]"
    by (simp add: example_defs path_defs library_defs io_defs index_defs os_defs rebuild_defs)
  note t = RebuildIndex_idempotent [where l = exLibrary and w = exStaleWorld]
  from t a have a': "fst (RebuildIndex exLibrary (snd (RebuildIndex exLibrary exStaleWorld))) = Nil"
    by simp
  from t b have b':
    "movieIndex (snd (RebuildIndex exLibrary (snd (RebuildIndex exLibrary exStaleWorld)))) =
     [''tt001'' \<mapsto> [''movies'', ''Foo (2020)'', ''foo.mkv'']]"
    by simp
  from t c have c':
    "showIndex (snd (RebuildIndex exLibrary (snd (RebuildIndex exLibrary exStaleWorld)))) =
     [''tt100'' \<mapsto> [1 \<mapsto> [1 \<mapsto> [''shows'', ''Bar'', ''Season 1'', ''bar.s01e01.mkv'']]]]"
    by simp
  show ?thesis by (intro conjI a b c a' b' c')
qed

subsection \<open>What is in the indexes after a rebuild\<close>

text \<open>
  Claim C9. \<open>RebuildIndex\<close> clears both indexes before it scans and never puts back what
  was in them: whatever the outcome, the movie index is what the movie scan adds to an
  empty index and the show index is what the show scan adds to an empty index; and two
  calls on the same disk end with the same outcome and the same indexes, whatever the
  indexes held before.
\<close>

theorem RebuildIndex_clears_first:
  "movieIndex (snd (RebuildIndex l w)) =
     movieIndex (snd (buildMovieIndex l (w\<lparr>movieIndex := Map.empty, showIndex := Map.empty\<rparr>))) \<and>
   showIndex (snd (RebuildIndex l w)) =
     showIndex (snd (buildShowIndex l (w\<lparr>movieIndex := Map.empty, showIndex := Map.empty\<rparr>))) \<and>
   (root w' = root w \<and> refused w' = refused w \<longrightarrow>
      fst (RebuildIndex l w') = fst (RebuildIndex l w) \<and>
      movieIndex (snd (RebuildIndex l w')) = movieIndex (snd (RebuildIndex l w)) \<and>
      showIndex (snd (RebuildIndex l w')) = showIndex (snd (RebuildIndex l w)))"
proof (intro conjI impI)
  show "movieIndex (snd (RebuildIndex l w)) =
     movieIndex (snd (buildMovieIndex l (w\<lparr>movieIndex := Map.empty, showIndex := Map.empty\<rparr>)))"
    "showIndex (snd (RebuildIndex l w)) =
     showIndex (snd (buildShowIndex l (w\<lparr>movieIndex := Map.empty, showIndex := Map.empty\<rparr>)))"
    using RebuildIndex_scans [of l w] by simp_all
next
  assume "root w' = root w \<and> refused w' = refused w"
  then have "sameDisk w w'" by (simp add: sameDisk_def)
  then have "agree sameIndexes (RebuildIndex l w) (RebuildIndex l w')"
    by (rule RebuildIndex_agree)
  then show "fst (RebuildIndex l w') = fst (RebuildIndex l w)"
    "movieIndex (snd (RebuildIndex l w')) = movieIndex (snd (RebuildIndex l w))"
    "showIndex (snd (RebuildIndex l w')) = showIndex (snd (RebuildIndex l w))"
    by (simp_all add: agree_def sameIndexes_def)
qed

text \<open>
  The example disk, and the disk without a show root on which the rebuild panics, each with
  stale indexes: the entries that were in the indexes before the call are gone, and after
  the failed run both indexes are empty.
\<close>

theorem RebuildIndex_clears_first_witness:
  "root exStaleWorld = root exBareWorld \<and> refused exStaleWorld = refused exBareWorld \<and>
   movieIndex exStaleWorld ''tt999'' = Some [''movies'', ''Gone'', ''gone.mkv''] \<and>
   fst (RebuildIndex exLibrary exStaleWorld) = Nil \<and>
   movieIndex (snd (RebuildIndex exLibrary exStaleWorld)) =
     [''tt001'' \<mapsto> [''movies'', ''Foo (2020)'', ''foo.mkv'']] \<and>
   showIndex (snd (RebuildIndex exLibrary exStaleWorld)) =
     [''tt100'' \<mapsto> [1 \<mapsto> [1 \<mapsto> [''shows'', ''Bar'', ''Season 1'', ''bar.s01e01.mkv'']]]] \<and>
   fst (RebuildIndex exLibrary (exStaleWorld\<lparr>root := root exNoShowsWorld\<rparr>)) = Panic \<and>
   movieIndex (snd (RebuildIndex exLibrary (exStaleWorld\<lparr>root := root exNoShowsWorld\<rparr>))) =
     Map.empty \<and>
   showIndex (snd (RebuildIndex exLibrary (exStaleWorld\<lparr>root := root exNoShowsWorld\<rparr>))) =
     Map.empty"
proof -
  have d: "root exStaleWorld = root exBareWorld \<and> refused exStaleWorld = refused exBareWorld"
    "movieIndex exStaleWorld ''tt999'' = Some [''movies'', ''Gone'', ''gone.mkv'']"
    by (simp_all add: example_defs)
  have a: "fst (RebuildIndex exLibrary exBareWorld) = Nil"
    "movieIndex (snd (RebuildIndex exLibrary exBareWorld)) =
     [''tt001'' \<mapsto> [''movies'', ''Foo (2020)'', ''foo.mkv'']]"
    "showIndex (snd (RebuildIndex exLibrary exBareWorld)) =
     [''tt100'' \<mapsto> [1 \<mapsto> [1 \<mapsto> [''shows'', ''Bar'', ''Season 1'', ''bar.s01e01.mkv'']]]]"
    by (simp_all add: example_defs path_defs library_defs io_defs index_defs os_defs
        rebuild_defs)
  let ?s = "exStaleWorld\<lparr>root := root exNoShowsWorld\<rparr>"
  have d': "root ?s = root exNoShowsWorld \<and> refused ?s = refused exNoShowsWorld"
    by (simp add: example_defs)
  have b: "fst (RebuildIndex exLibrary exNoShowsWorld) = Panic"
    "movieIndex (snd (RebuildIndex exLibrary exNoShowsWorld)) = Map.empty"
    "showIndex (snd (RebuildIndex exLibrary exNoShowsWorld)) = Map.empty"
    by (simp_all add: example_defs path_defs library_defs io_defs index_defs os_defs
        rebuild_defs)
  note t = RebuildIndex_clears_first [where l = exLibrary and w = exBareWorld
      and w' = exStaleWorld]
  note u = RebuildIndex_clears_first [where l = exLibrary and w = exNoShowsWorld and w' = ?s]
  from t d(1) a have a': "fst (RebuildIndex exLibrary exStaleWorld) = Nil"
    "movieIndex (snd (RebuildIndex exLibrary exStaleWorld)) =
     [''tt001'' \<mapsto> [''movies'', ''Foo (2020)'', ''foo.mkv'']]"
    "showIndex (snd (RebuildIndex exLibrary exStaleWorld)) =
     [''tt100'' \<mapsto> [1 \<mapsto> [1 \<mapsto> [''shows'', ''Bar'', ''Season 1'', ''bar.s01e01.mkv'']]]]"
    by simp_all
  from u d' b have b': "fst (RebuildIndex exLibrary ?s) = Panic"
    "movieIndex (snd (RebuildIndex exLibrary ?s)) = Map.empty"
    "showIndex (snd (RebuildIndex exLibrary ?s)) = Map.empty"
    by simp_all
  from d a' b' show ?thesis by (intro conjI) simp_all
qed

end
